theory Spec2Isabelle
  imports Main "HOL-Library.List_Lexorder" "HOL-Library.Char_ord" "HOL-Library.AList"
    "HOL-Library.Multiset"
begin

section \<open>Data model\<close>

text \<open>
  The store's action layer (\<^verbatim>\<open>src/store/actions.ts\<close>) and its mutations keep an in-memory
  state in step with a local key-document database. Identifiers are strings
  (\<^verbatim>\<open>'task-' + nanoid()\<close>), times and ordering positions are JavaScript numbers holding
  integers (milliseconds, list indices), modelled as \<open>int\<close>. A property that may be
  \<^verbatim>\<open>null\<close> or \<^verbatim>\<open>undefined\<close> is an \<open>option\<close>.
\<close>

type_synonym ident = string

record Task =
  id_Task :: ident
  name :: string
  notes_Task :: string
  order :: int
  created_at :: int
  completed :: "int option"
  archived :: "bool option"

record Tag =
  id_Tag :: ident
  tagName :: string
  color :: string
  order_Tag :: int

record TaskLog =
  id_Log :: ident
  taskId_Log :: ident
  started :: int
  stopped :: "int option"
  timeSpent :: "int option"

record TaskTagMap =
  id_Map :: ident
  taskId_Map :: ident
  tagId_Map :: ident

text \<open>A row of the settings table: a key together with a value of the key's type.\<close>

datatype SettingKv =
    SelectedTaskID "ident option"
  | SelectedTagIds "ident list"
  | AddSelectedTags bool

fun key_of :: "SettingKv \<Rightarrow> string" where
  "key_of (SelectedTaskID _) = ''selectedTaskID''"
| "key_of (SelectedTagIds _) = ''selectedTagIds''"
| "key_of (AddSelectedTags _) = ''addSelectedTags''"

record Settings =
  selectedTaskID :: "ident option"
  selectedTagIds :: "ident list"
  addSelectedTags :: bool

record TempState =
  activeTaskID :: "ident option"
  running :: bool
  modalTagId :: "ident option"

text \<open>
  \<^verbatim>\<open>state.tasks\<close> and \<^verbatim>\<open>state.tags\<close> are JavaScript objects used as dictionaries whose
  \<^verbatim>\<open>Object.values\<close> order is read by the actions, so they are association lists in
  insertion order: assigning to an existing key keeps its place, a new key goes last.
  \<^verbatim>\<open>state.taskTagsMap\<close> is only read and written by key.
\<close>

record PomoTrackState =
  tasks :: "(ident \<times> Task) list"
  tags :: "(ident \<times> Tag) list"
  tagOrder :: "ident list"
  taskTagsMap :: "ident \<rightharpoonup> ident list"
  settings :: Settings
  selectedTaskLogs :: "TaskLog list"
  tempState :: TempState
  isActivityModalVisible :: bool

text \<open>
  The database: five tables, each the list of its rows in primary-key order, which is
  the order in which the document store enumerates a table.
\<close>

record database =
  tasks_tbl :: "Task list"
  tags_tbl :: "Tag list"
  taskTagMap_tbl :: "TaskTagMap list"
  settings_tbl :: "SettingKv list"
  logs_tbl :: "TaskLog list"

text \<open>
  \<^verbatim>\<open>dexieDb\<close> and \<^verbatim>\<open>storageEnabled\<close> are imported from the storage manager; they are
  components of the world an action runs in. \<^verbatim>\<open>dexieDb\<close> may be absent.
\<close>

record world =
  dexieDb :: "database option"
  storageEnabled :: bool
  state :: PomoTrackState

datatype error = Rejected | ConstraintError | TypeError

section \<open>JavaScript truthiness\<close>

fun truthy_num :: "int option \<Rightarrow> bool" where
  "truthy_num None = False"
| "truthy_num (Some n) = (n \<noteq> 0)"

fun truthy_bool :: "bool option \<Rightarrow> bool" where
  "truthy_bool None = False"
| "truthy_bool (Some b) = b"

section \<open>Tables of the document store\<close>

text \<open>
  A table is keyed by a property of its rows. \<^verbatim>\<open>add\<close> fails on a key that is present,
  \<^verbatim>\<open>put\<close> replaces the row of a present key and inserts otherwise, \<^verbatim>\<open>update\<close>
  modifies the row of a key when there is one, and a collection's \<^verbatim>\<open>delete\<close> removes the
  rows it selects. A query (\<^verbatim>\<open>where(...).toArray()\<close>) is a \<open>filter\<close> of the rows.
\<close>

definition tbl_get :: "('r \<Rightarrow> ident) \<Rightarrow> 'r list \<Rightarrow> ident \<Rightarrow> 'r option" where
  "tbl_get key rows k = find (\<lambda>r. key r = k) rows"

definition tbl_add :: "('r \<Rightarrow> ident) \<Rightarrow> 'r \<Rightarrow> 'r list \<Rightarrow> 'r list \<times> error option" where
  "tbl_add key r rows =
     (if key r \<in> set (map key rows) then (rows, Some ConstraintError)
      else (insort_key key r rows, None))"

definition tbl_put :: "('r \<Rightarrow> ident) \<Rightarrow> 'r \<Rightarrow> 'r list \<Rightarrow> 'r list" where
  "tbl_put key r rows =
     (if key r \<in> set (map key rows) then map (\<lambda>x. if key x = key r then r else x) rows
      else insort_key key r rows)"

definition tbl_update :: "('r \<Rightarrow> ident) \<Rightarrow> ident \<Rightarrow> ('r \<Rightarrow> 'r) \<Rightarrow> 'r list \<Rightarrow> 'r list" where
  "tbl_update key k f rows = map (\<lambda>x. if key x = k then f x else x) rows"

definition tbl_delete :: "('r \<Rightarrow> bool) \<Rightarrow> 'r list \<Rightarrow> 'r list" where
  "tbl_delete P rows = filter (\<lambda>x. \<not> P x) rows"


text \<open>
  \<^verbatim>\<open>handleDexieError(dexiePromise, ...)\<close>. Its argument is the promise returned by a table
  operation that the caller has already invoked: JavaScript evaluates the argument
  before the call, so the operation is issued whether or not the flag is set. The model
  therefore passes the operation's outcome, and the caller keeps the table the operation
  produced. With the flag unset the helper rejects; otherwise it returns the outcome of
  the promise (its \<^verbatim>\<open>catch\<close> logs and rethrows).
\<close>

definition handleDexieError :: "bool \<Rightarrow> error option \<Rightarrow> error option" where
  "handleDexieError enabled dexiePromise =
     (if \<not> enabled then Some Rejected else dexiePromise)"

section \<open>Mutations\<close>

text \<open>\<^verbatim>\<open>Partial<Task>\<close> as the actions build it: one property to overwrite.\<close>

datatype TaskUpdates =
    Upd_name string
  | Upd_notes string
  | Upd_completed "int option"
  | Upd_archived bool

fun spread :: "Task \<Rightarrow> TaskUpdates \<Rightarrow> Task" where
  "spread t (Upd_name n) = t\<lparr>name := n\<rparr>"
| "spread t (Upd_notes n) = t\<lparr>notes_Task := n\<rparr>"
| "spread t (Upd_completed c) = t\<lparr>completed := c\<rparr>"
| "spread t (Upd_archived a) = t\<lparr>archived := Some a\<rparr>"

text \<open>
  \<^verbatim>\<open>updateTask\<close>: \<^verbatim>\<open>state.tasks[taskId] = { ...state.tasks[taskId], ...taskUpdates }\<close>.
  Every action that commits it has found \<^verbatim>\<open>state.tasks[taskId]\<close> first; for an absent
  key JavaScript would store an object holding the updated property alone, which is not
  a task, and the model leaves the dictionary as it is.
\<close>

definition commit_updateTask :: "PomoTrackState \<Rightarrow> ident \<Rightarrow> TaskUpdates \<Rightarrow> PomoTrackState" where
  "commit_updateTask st taskId taskUpdates =
     (case map_of (tasks st) taskId of
        None \<Rightarrow> st
      | Some t \<Rightarrow> st\<lparr>tasks := AList.update taskId (spread t taskUpdates) (tasks st)\<rparr>)"

fun findIndex :: "('a \<Rightarrow> bool) \<Rightarrow> 'a list \<Rightarrow> nat option" where
  "findIndex P [] = None"
| "findIndex P (x # xs) =
     (if P x then Some 0 else map_option Suc (findIndex P xs))"

definition commit_updateLog :: "PomoTrackState \<Rightarrow> ident \<Rightarrow> TaskLog \<Rightarrow> PomoTrackState" where
  "commit_updateLog st taskId log =
     (if Some taskId \<noteq> selectedTaskID (settings st) then st
      else case findIndex (\<lambda>l. id_Log l = id_Log log) (selectedTaskLogs st) of
        Some logIndex \<Rightarrow>
          st\<lparr>selectedTaskLogs := (selectedTaskLogs st)[logIndex := log],
             tempState :=
               (if stopped log = None then (tempState st)\<lparr>running := True\<rparr>
                else (tempState st)\<lparr>running := False, activeTaskID := None\<rparr>)\<rparr>
      | None \<Rightarrow> st\<lparr>selectedTaskLogs := selectedTaskLogs st @ [log]\<rparr>)"

definition commit_startTask :: "PomoTrackState \<Rightarrow> TaskLog \<Rightarrow> PomoTrackState" where
  "commit_startTask st log =
     (case map_of (tasks st) (taskId_Log log) of
        None \<Rightarrow> st
      | Some task \<Rightarrow>
          st\<lparr>tempState := (tempState st)\<lparr>activeTaskID := Some (id_Task task), running := True\<rparr>,
             selectedTaskLogs := selectedTaskLogs st @ [log]\<rparr>)"



definition commit_deleteTasks :: "PomoTrackState \<Rightarrow> ident list \<Rightarrow> PomoTrackState" where
  "commit_deleteTasks st taskIds =
     foldl (\<lambda>s k. s\<lparr>tasks := AList.delete k (tasks s),
                     taskTagsMap := (taskTagsMap s)(k := None)\<rparr>) st taskIds"



text \<open>
  A mutation that reads \<^verbatim>\<open>state.taskTagsMap[k]\<close> and calls a method on it throws a
  \<^verbatim>\<open>TypeError\<close> when the entry is missing; what it has assigned before stays. Such a
  mutation returns the state together with the error.
\<close>

fun push_tagIds ::
  "TaskTagMap list \<Rightarrow> (ident \<rightharpoonup> ident list) \<Rightarrow> (ident \<rightharpoonup> ident list) \<times> error option" where
  "push_tagIds [] m = (m, None)"
| "push_tagIds (r # rs) m =
     (case m (taskId_Map r) of
        None \<Rightarrow> (m, Some TypeError)
      | Some xs \<Rightarrow> push_tagIds rs (m(taskId_Map r \<mapsto> xs @ [tagId_Map r])))"


definition commit_addTaskTag ::
  "PomoTrackState \<Rightarrow> ident \<Rightarrow> Tag \<Rightarrow> bool \<Rightarrow> PomoTrackState \<times> error option" where
  "commit_addTaskTag st tid tag isNewTag =
     (let st1 = (if isNewTag
                 then st\<lparr>tags := AList.update (id_Tag tag) tag (tags st),
                         tagOrder := tagOrder st @ [id_Tag tag]\<rparr>
                 else st)
      in case taskTagsMap st1 tid of
           None \<Rightarrow> (st1, Some TypeError)
         | Some xs \<Rightarrow> (st1\<lparr>taskTagsMap := (taskTagsMap st1)(tid \<mapsto> xs @ [id_Tag tag])\<rparr>, None))"





definition commit_deleteTaskTag :: "PomoTrackState \<Rightarrow> ident \<Rightarrow> ident list \<Rightarrow> PomoTrackState" where
  "commit_deleteTaskTag st tid newTagIds =
     st\<lparr>taskTagsMap := (taskTagsMap st)(tid \<mapsto> newTagIds)\<rparr>"

fun filter_taskTags ::
  "ident \<Rightarrow> ident list \<Rightarrow> (ident \<rightharpoonup> ident list) \<Rightarrow> (ident \<rightharpoonup> ident list) \<times> error option" where
  "filter_taskTags tagId [] m = (m, None)"
| "filter_taskTags tagId (k # ks) m =
     (case m k of
        None \<Rightarrow> (m, Some TypeError)
      | Some xs \<Rightarrow> filter_taskTags tagId ks (m(k \<mapsto> filter (\<lambda>tId. tId \<noteq> tagId) xs)))"

definition commit_deleteTag :: "PomoTrackState \<Rightarrow> ident \<Rightarrow> PomoTrackState \<times> error option" where
  "commit_deleteTag st tagId =
     (case filter_taskTags tagId (map fst (tasks st)) (taskTagsMap st) of
        (m, Some e) \<Rightarrow> (st\<lparr>taskTagsMap := m\<rparr>, Some e)
      | (m, None) \<Rightarrow>
          (st\<lparr>taskTagsMap := m,
              settings := (settings st)
                \<lparr>selectedTagIds := filter (\<lambda>tag. tag \<noteq> tagId) (selectedTagIds (settings st))\<rparr>,
              tags := AList.delete tagId (tags st),
              tagOrder := filter (\<lambda>tId. tId \<noteq> tagId) (tagOrder st),
              isActivityModalVisible := False\<rparr>, None))"

definition commit_updateSetting :: "PomoTrackState \<Rightarrow> SettingKv \<Rightarrow> PomoTrackState" where
  "commit_updateSetting st kv =
     (case kv of
        SelectedTaskID v \<Rightarrow> st\<lparr>settings := (settings st)\<lparr>selectedTaskID := v\<rparr>\<rparr>
      | SelectedTagIds v \<Rightarrow> st\<lparr>settings := (settings st)\<lparr>selectedTagIds := v\<rparr>\<rparr>
      | AddSelectedTags v \<Rightarrow> st\<lparr>settings := (settings st)\<lparr>addSelectedTags := v\<rparr>\<rparr>)"

text \<open>
  \<^verbatim>\<open>loadInitialData\<close> (mutation). \<^verbatim>\<open>initialState.settings\<close> is imported from a module
  outside the files at hand and is an argument. For each key the stored row is taken
  when there is one, the initial value otherwise.
\<close>

definition load_settings :: "Settings \<Rightarrow> SettingKv list \<Rightarrow> Settings" where
  "load_settings initialSettings ss =
     \<lparr>selectedTaskID =
        (case find (\<lambda>s. key_of s = ''selectedTaskID'') ss of
           Some (SelectedTaskID v) \<Rightarrow> v | _ \<Rightarrow> selectedTaskID initialSettings),
      selectedTagIds =
        (case find (\<lambda>s. key_of s = ''selectedTagIds'') ss of
           Some (SelectedTagIds v) \<Rightarrow> v | _ \<Rightarrow> selectedTagIds initialSettings),
      addSelectedTags =
        (case find (\<lambda>s. key_of s = ''addSelectedTags'') ss of
           Some (AddSelectedTags v) \<Rightarrow> v | _ \<Rightarrow> addSelectedTags initialSettings)\<rparr>"

definition commit_loadInitialData ::
  "PomoTrackState \<Rightarrow> Settings \<Rightarrow> Task list \<Rightarrow> Tag list \<Rightarrow> TaskTagMap list \<Rightarrow> SettingKv list
     \<Rightarrow> TaskLog list \<Rightarrow> PomoTrackState \<times> error option" where
  "commit_loadInitialData st initialSettings ts gs taskTagMaps ss logs =
     (let st1 = st\<lparr>tasks := foldl (\<lambda>acc t. AList.update (id_Task t) t acc) [] ts,
                   tags := foldl (\<lambda>acc g. AList.update (id_Tag g) g acc) [] gs,
                   tagOrder := map id_Tag gs\<rparr>
      in case push_tagIds taskTagMaps (foldl (\<lambda>m t. m(id_Task t \<mapsto> [])) Map.empty ts) of
           (m, Some e) \<Rightarrow> (st1\<lparr>taskTagsMap := m\<rparr>, Some e)
         | (m, None) \<Rightarrow>
             (st1\<lparr>taskTagsMap := m,
                  settings := load_settings initialSettings ss,
                  selectedTaskLogs := logs\<rparr>, None))"

section \<open>Actions\<close>

text \<open>
  An action takes the world and returns the world it leaves, together with the error
  with which its promise rejects, if it does. \<^verbatim>\<open>Date.now()\<close> and \<^verbatim>\<open>nanoid()\<close> are
  arguments. A \<^verbatim>\<open>try\<close>/\<^verbatim>\<open>catch\<close> that logs the error makes the action return normally.
\<close>

definition set_logs :: "world \<Rightarrow> database \<Rightarrow> TaskLog list \<Rightarrow> world" where
  "set_logs w db rows = w\<lparr>dexieDb := Some (db\<lparr>logs_tbl := rows\<rparr>)\<rparr>"

definition set_tasks :: "world \<Rightarrow> database \<Rightarrow> Task list \<Rightarrow> world" where
  "set_tasks w db rows = w\<lparr>dexieDb := Some (db\<lparr>tasks_tbl := rows\<rparr>)\<rparr>"

definition stopTask :: "world \<Rightarrow> int \<Rightarrow> world \<times> error option" where
  "stopTask w now =
     (case dexieDb w of
        None \<Rightarrow> (w, None)
      | Some db \<Rightarrow>
         (case find (\<lambda>log. stopped log = None) (logs_tbl db) of
            None \<Rightarrow> (w, None)
          | Some runningLog \<Rightarrow>
             (let log = runningLog\<lparr>stopped := Some now,
                                   timeSpent := Some (now - started runningLog)\<rparr>;
                  w1 = set_logs w db (tbl_put id_Log log (logs_tbl db))
              in case handleDexieError (storageEnabled w) None of
                   Some e \<Rightarrow> (w1, None)
                 | None \<Rightarrow>
                    (w1\<lparr>state := commit_updateLog (state w1) (taskId_Log log) log\<rparr>, None))))"

text \<open>
  \<^verbatim>\<open>completeTask\<close> calls the table directly, without \<^verbatim>\<open>handleDexieError\<close>. The two
  times are the \<^verbatim>\<open>Date.now()\<close> of the dispatched \<^verbatim>\<open>stopTask\<close> and its own.
\<close>

definition completeTask :: "world \<Rightarrow> ident \<Rightarrow> int \<Rightarrow> int \<Rightarrow> world \<times> error option" where
  "completeTask w taskId tStop now =
     (case dexieDb w of
        None \<Rightarrow> (w, None)
      | Some _ \<Rightarrow>
         (case map_of (tasks (state w)) taskId of
            None \<Rightarrow> (w, None)
          | Some task \<Rightarrow>
             (let w1 = (if \<not> truthy_num (completed task)
                          \<and> Some (id_Task task) = activeTaskID (tempState (state w))
                          \<and> running (tempState (state w))
                        then fst (stopTask w tStop) else w);
                  completedValue = (if \<not> truthy_num (completed task) then Some now else None);
                  taskUpdates = Upd_completed completedValue
              in case dexieDb w1 of
                   None \<Rightarrow> (w1, Some TypeError)
                 | Some db1 \<Rightarrow>
                    ((set_tasks w1 db1 (tbl_update id_Task taskId (\<lambda>t. spread t taskUpdates)
                                          (tasks_tbl db1)))
                       \<lparr>state := commit_updateTask (state w1) taskId taskUpdates\<rparr>, None))))"

text \<open>
  The payload of \<^verbatim>\<open>archiveTask\<close> as callers build it. The action destructures
  \<^verbatim>\<open>taskId\<close> only; the Restore button of the archive dropdown also passes
  \<^verbatim>\<open>archived: false\<close>.
\<close>

record ArchivePayload =
  taskId :: ident
  archived_arg :: "bool option"

definition archiveTask :: "world \<Rightarrow> ArchivePayload \<Rightarrow> world \<times> error option" where
  "archiveTask w payload =
     (case dexieDb w of
        None \<Rightarrow> (w, None)
      | Some db \<Rightarrow>
         (case map_of (tasks (state w)) (taskId payload) of
            None \<Rightarrow> (w, None)
          | Some task \<Rightarrow>
             (let taskUpdates = Upd_archived (\<not> truthy_bool (archived task))
              in ((set_tasks w db (tbl_update id_Task (taskId payload)
                                     (\<lambda>t. spread t taskUpdates) (tasks_tbl db)))
                    \<lparr>state := commit_updateTask (state w) (taskId payload) taskUpdates\<rparr>, None))))"

text \<open>\<^verbatim>\<open>NavbarArchiveDropdown.vue\<close>, \<^verbatim>\<open>unarchiveTask\<close>: the Restore button.\<close>

definition unarchiveTask :: "world \<Rightarrow> ident \<Rightarrow> world \<times> error option" where
  "unarchiveTask w tid = archiveTask w \<lparr>taskId = tid, archived_arg = Some False\<rparr>"



definition updateTaskName :: "world \<Rightarrow> ident \<Rightarrow> string \<Rightarrow> world \<times> error option" where
  "updateTaskName w tid nm =
     (case dexieDb w of
        None \<Rightarrow> (w, None)
      | Some db \<Rightarrow>
         (case map_of (tasks (state w)) tid of
            None \<Rightarrow> (w, None)
          | Some task \<Rightarrow>
             (let taskUpdates = Upd_name nm;
                  w1 = set_tasks w db (tbl_update id_Task tid (\<lambda>t. spread t taskUpdates)
                                         (tasks_tbl db))
              in case handleDexieError (storageEnabled w) None of
                   Some e \<Rightarrow> (w1, None)
                 | None \<Rightarrow> (w1\<lparr>state := commit_updateTask (state w1) tid taskUpdates\<rparr>, None))))"

definition updateTaskNotes :: "world \<Rightarrow> ident \<Rightarrow> string \<Rightarrow> world \<times> error option" where
  "updateTaskNotes w tid nts =
     (case dexieDb w of
        None \<Rightarrow> (w, None)
      | Some db \<Rightarrow>
         (case map_of (tasks (state w)) tid of
            None \<Rightarrow> (w, None)
          | Some task \<Rightarrow>
             (let taskUpdates = Upd_notes nts;
                  w1 = set_tasks w db (tbl_update id_Task tid (\<lambda>t. spread t taskUpdates)
                                         (tasks_tbl db))
              in case handleDexieError (storageEnabled w) None of
                   Some e \<Rightarrow> (w1, None)
                 | None \<Rightarrow> (w1\<lparr>state := commit_updateTask (state w1) tid taskUpdates\<rparr>, None))))"

text \<open>
  \<^verbatim>\<open>startTask\<close> dispatches \<^verbatim>\<open>stopTask\<close> before it looks the task up. \<open>nid\<close> is the value
  of \<^verbatim>\<open>nanoid()\<close>, \<open>tStop\<close> and \<open>now\<close> the two readings of the clock.
\<close>

definition startTask :: "world \<Rightarrow> ident \<Rightarrow> string \<Rightarrow> int \<Rightarrow> int \<Rightarrow> world \<times> error option" where
  "startTask w tid nid tStop now =
     (case dexieDb w of
        None \<Rightarrow> (w, None)
      | Some _ \<Rightarrow>
         (let w1 = fst (stopTask w tStop)
          in case map_of (tasks (state w1)) tid of
               None \<Rightarrow> (w1, None)
             | Some task \<Rightarrow>
                (case dexieDb w1 of
                   None \<Rightarrow> (w1, None)
                 | Some db1 \<Rightarrow>
                    (let log = \<lparr>id_Log = ''log-'' @ nid, taskId_Log = tid, started = now,
                                stopped = None, timeSpent = None\<rparr>;
                         (rows, r) = tbl_add id_Log log (logs_tbl db1);
                         w2 = set_logs w1 db1 rows
                     in case handleDexieError (storageEnabled w1) r of
                          Some e \<Rightarrow> (w2, None)
                        | None \<Rightarrow> (w2\<lparr>state := commit_startTask (state w2) log\<rparr>, None)))))"


text \<open>
  \<^verbatim>\<open>addInterval\<close> calls \<^verbatim>\<open>logs.add\<close> directly and has no \<^verbatim>\<open>try\<close>: a failing \<^verbatim>\<open>add\<close>
  rejects the action. Its \<^verbatim>\<open>stopped\<close> and \<^verbatim>\<open>timeSpent\<close> arguments are numbers.
\<close>

definition addInterval ::
  "world \<Rightarrow> ident \<Rightarrow> string \<Rightarrow> int \<Rightarrow> int \<Rightarrow> int \<Rightarrow> world \<times> error option" where
  "addInterval w tid nid started_arg timeSpent_arg stopped_arg =
     (case dexieDb w of
        None \<Rightarrow> (w, None)
      | Some db \<Rightarrow>
         (case map_of (tasks (state w)) tid of
            None \<Rightarrow> (w, None)
          | Some task \<Rightarrow>
             (let log = \<lparr>id_Log = ''log-'' @ nid, taskId_Log = tid, started = started_arg,
                         stopped = Some stopped_arg, timeSpent = Some timeSpent_arg\<rparr>
              in case tbl_add id_Log log (logs_tbl db) of
                   (rows, Some e) \<Rightarrow> (set_logs w db rows, Some e)
                 | (rows, None) \<Rightarrow>
                     ((set_logs w db rows)\<lparr>state := commit_updateLog (state w) tid log\<rparr>, None))))"




subsection \<open>Loading\<close>

text \<open>
  The reconciliation loop of \<^verbatim>\<open>loadInitialData\<close> runs over the array read from the logs
  table and writes each log it closes back; a rejected write leaves the loop and the
  action. The test \<^verbatim>\<open>!log.stopped && log.timeSpent\<close> is one of truthiness.
\<close>

fun reconcile_logs :: "bool \<Rightarrow> TaskLog list \<Rightarrow> TaskLog list \<Rightarrow> TaskLog list \<times> error option" where
  "reconcile_logs enabled [] rows = (rows, None)"
| "reconcile_logs enabled (log # logs) rows =
     (case timeSpent log of
        None \<Rightarrow> reconcile_logs enabled logs rows
      | Some spent \<Rightarrow>
         (if \<not> truthy_num (stopped log) \<and> truthy_num (timeSpent log) then
            (let rows1 = tbl_put id_Log (log\<lparr>stopped := Some (started log + spent)\<rparr>) rows
             in case handleDexieError enabled None of
                  Some e \<Rightarrow> (rows1, Some e)
                | None \<Rightarrow> reconcile_logs enabled logs rows1)
          else reconcile_logs enabled logs rows))"

fun selected_logs :: "SettingKv list \<Rightarrow> TaskLog list \<Rightarrow> TaskLog list \<Rightarrow> TaskLog list" where
  "selected_logs [] rows acc = acc"
| "selected_logs (SelectedTaskID (Some v) # ss) rows acc =
     (if v \<noteq> [] then selected_logs ss rows (filter (\<lambda>l. taskId_Log l = v) rows)
      else selected_logs ss rows acc)"
| "selected_logs (_ # ss) rows acc = selected_logs ss rows acc"

text \<open>
  \<^verbatim>\<open>orderBy('order').toArray()\<close> lists the rows by \<^verbatim>\<open>order\<close>, rows of equal order by
  primary key: a stable sort of the table. (The legacy \<^verbatim>\<open>tags\<close> property that the action
  deletes from each task is not part of the record.)
\<close>

definition loadInitialData :: "world \<Rightarrow> Settings \<Rightarrow> world \<times> error option" where
  "loadInitialData w initialSettings =
     (case dexieDb w of
        None \<Rightarrow> (w, None)
      | Some db \<Rightarrow>
         (let ts = sort_key order (tasks_tbl db);
              gs = sort_key order_Tag (tags_tbl db);
              taskTagMaps = taskTagMap_tbl db;
              ss = settings_tbl db
          in case reconcile_logs (storageEnabled w) (logs_tbl db) (logs_tbl db) of
               (rows, Some e) \<Rightarrow> (set_logs w db rows, Some e)
             | (rows, None) \<Rightarrow>
                 (let w1 = set_logs w db rows
                  in case commit_loadInitialData (state w1) initialSettings ts gs taskTagMaps ss
                            (selected_logs ss rows []) of
                       (st, e) \<Rightarrow> (w1\<lparr>state := st\<rparr>, e))))"

subsection \<open>Reordering the incomplete tasks\<close>






subsection \<open>Settings and tag filters\<close>

definition updateSetting :: "world \<Rightarrow> SettingKv \<Rightarrow> world \<times> error option" where
  "updateSetting w kv =
     (case dexieDb w of
        None \<Rightarrow> (w, None)
      | Some db \<Rightarrow>
         (let w1 = w\<lparr>dexieDb := Some (db\<lparr>settings_tbl := tbl_put key_of kv (settings_tbl db)\<rparr>)\<rparr>
          in case handleDexieError (storageEnabled w) None of
               Some e \<Rightarrow> (w1, Some e)
             | None \<Rightarrow> (w1\<lparr>state := commit_updateSetting (state w1) kv\<rparr>, None)))"






subsection \<open>Tags and task-tag associations\<close>

text \<open>\<^verbatim>\<open>String.prototype.trim\<close>, on the ASCII white space.\<close>

definition is_space :: "char \<Rightarrow> bool" where
  "is_space c = (c \<in> set [CHR '' '', CHR 0x09, CHR 0x0A, CHR 0x0B, CHR 0x0C, CHR 0x0D])"

definition trim :: "string \<Rightarrow> string" where
  "trim s = rev (dropWhile is_space (rev (dropWhile is_space s)))"

definition set_taskTagMap :: "world \<Rightarrow> database \<Rightarrow> TaskTagMap list \<Rightarrow> world" where
  "set_taskTagMap w db rows = w\<lparr>dexieDb := Some (db\<lparr>taskTagMap_tbl := rows\<rparr>)\<rparr>"

text \<open>
  The tail of \<^verbatim>\<open>addTaskTagByName\<close>, once the tag is at hand: add the association row
  (called directly on the table) and commit \<^verbatim>\<open>addTaskTag\<close>. The action's \<^verbatim>\<open>catch\<close> logs
  every error.
\<close>

definition link_tag ::
  "world \<Rightarrow> database \<Rightarrow> ident \<Rightarrow> string \<Rightarrow> Tag \<Rightarrow> bool \<Rightarrow> world \<times> error option" where
  "link_tag w db tid nidMap tag isNewTag =
     (case tbl_add id_Map \<lparr>id_Map = ''taskTag-'' @ nidMap, taskId_Map = tid,
                            tagId_Map = id_Tag tag\<rparr> (taskTagMap_tbl db) of
        (rows, Some e) \<Rightarrow> (set_taskTagMap w db rows, None)
      | (rows, None) \<Rightarrow>
          (case commit_addTaskTag (state w) tid tag isNewTag of
             (st, e) \<Rightarrow> ((set_taskTagMap w db rows)\<lparr>state := st\<rparr>, None)))"

text \<open>\<open>nidTag\<close> and \<open>nidMap\<close> are the two values of \<^verbatim>\<open>nanoid()\<close>, \<open>randomColor\<close> the
  value of \<^verbatim>\<open>colorManager.getRandomColor()\<close>.\<close>

definition addTaskTagByName ::
  "world \<Rightarrow> ident \<Rightarrow> string \<Rightarrow> string \<Rightarrow> string \<Rightarrow> string \<Rightarrow> world \<times> error option" where
  "addTaskTagByName w tid tagName_arg nidTag nidMap randomColor =
     (case dexieDb w of
        None \<Rightarrow> (w, None)
      | Some db \<Rightarrow>
         (let trimmedTagName = trim tagName_arg
          in if trimmedTagName = [] then (w, None)
             else case map_of (tasks (state w)) tid of
               None \<Rightarrow> (w, None)
             | Some task \<Rightarrow>
                (case find (\<lambda>g. tagName g = trimmedTagName) (tags_tbl db) of
                   Some tag \<Rightarrow> link_tag w db tid nidMap tag False
                 | None \<Rightarrow>
                    (let ord = (case sort_key order_Tag (tags_tbl db) of
                                  [] \<Rightarrow> 0
                                | g # gs \<Rightarrow> order_Tag (last (g # gs)) + 1);
                         tag = \<lparr>id_Tag = ''tag-'' @ nidTag, tagName = trimmedTagName,
                                color = randomColor, order_Tag = ord\<rparr>
                     in case tbl_add id_Tag tag (tags_tbl db) of
                          (rows, Some e) \<Rightarrow> (w\<lparr>dexieDb := Some (db\<lparr>tags_tbl := rows\<rparr>)\<rparr>, None)
                        | (rows, None) \<Rightarrow>
                            link_tag (w\<lparr>dexieDb := Some (db\<lparr>tags_tbl := rows\<rparr>)\<rparr>)
                              (db\<lparr>tags_tbl := rows\<rparr>) tid nidMap tag True))))"

definition addTaskTagById ::
  "world \<Rightarrow> ident \<Rightarrow> ident \<Rightarrow> string \<Rightarrow> world \<times> error option" where
  "addTaskTagById w tid tagId nid =
     (case dexieDb w of
        None \<Rightarrow> (w, None)
      | Some db \<Rightarrow>
         (case map_of (tasks (state w)) tid of
            None \<Rightarrow> (w, None)
          | Some task \<Rightarrow>
             (case map_of (tags (state w)) tagId of
                None \<Rightarrow> (w, None)
              | Some tag \<Rightarrow>
                 (case tbl_add id_Map \<lparr>id_Map = ''taskTag-'' @ nid, taskId_Map = tid,
                                        tagId_Map = tagId\<rparr> (taskTagMap_tbl db) of
                    (rows, r) \<Rightarrow>
                      (case handleDexieError (storageEnabled w) r of
                         Some e \<Rightarrow> (set_taskTagMap w db rows, Some e)
                       | None \<Rightarrow>
                          (case commit_addTaskTag (state w) tid tag False of
                             (st, e) \<Rightarrow> ((set_taskTagMap w db rows)\<lparr>state := st\<rparr>, e)))))))"

text \<open>\<^verbatim>\<open>removeTaskTag\<close> deletes the rows of the pair and reads the task's rows back.\<close>

definition removeTaskTag :: "world \<Rightarrow> ident \<Rightarrow> ident \<Rightarrow> world \<times> error option" where
  "removeTaskTag w tid tagId =
     (case dexieDb w of
        None \<Rightarrow> (w, None)
      | Some db \<Rightarrow>
         (let rows = tbl_delete (\<lambda>m. taskId_Map m = tid \<and> tagId_Map m = tagId)
                       (taskTagMap_tbl db);
              newTags = filter (\<lambda>m. taskId_Map m = tid) rows;
              newTagIds = map tagId_Map newTags
          in ((set_taskTagMap w db rows)
                \<lparr>state := commit_deleteTaskTag (state w) tid newTagIds\<rparr>, None)))"

text \<open>\<open>confirmed\<close> is the answer to the \<^verbatim>\<open>confirm\<close> dialog.\<close>

definition deleteTag :: "world \<Rightarrow> ident \<Rightarrow> bool \<Rightarrow> world \<times> error option" where
  "deleteTag w tagId confirmed =
     (case dexieDb w of
        None \<Rightarrow> (w, None)
      | Some db \<Rightarrow>
         (case tbl_get id_Tag (tags_tbl db) tagId of
            None \<Rightarrow> (w, None)
          | Some tag \<Rightarrow>
             (if \<not> confirmed then (w, None)
              else
                (let db1 = db\<lparr>taskTagMap_tbl :=
                               tbl_delete (\<lambda>m. tagId_Map m = tagId) (taskTagMap_tbl db)\<rparr>
                 in case handleDexieError (storageEnabled w) None of
                      Some e \<Rightarrow> (w\<lparr>dexieDb := Some db1\<rparr>, Some e)
                    | None \<Rightarrow>
                       (let db2 = db1\<lparr>tags_tbl :=
                                       tbl_delete (\<lambda>g. id_Tag g = tagId) (tags_tbl db1)\<rparr>
                        in case handleDexieError (storageEnabled w) None of
                             Some e \<Rightarrow> (w\<lparr>dexieDb := Some db2\<rparr>, Some e)
                           | None \<Rightarrow>
                              (case commit_deleteTag (state w) tagId of
                                 (st, e) \<Rightarrow> (w\<lparr>dexieDb := Some db2, state := st\<rparr>, e)))))))"





subsection \<open>Adding, archiving and deleting tasks\<close>




text \<open>
  \<^verbatim>\<open>deleteAllArchivedTasks\<close> reads the getter \<^verbatim>\<open>archivedTasks\<close>, defined outside the files
  at hand: its value is an argument.
\<close>

definition deleteAllArchivedTasks :: "world \<Rightarrow> Task list \<Rightarrow> world \<times> error option" where
  "deleteAllArchivedTasks w archivedTasks =
     (case dexieDb w of
        None \<Rightarrow> (w, None)
      | Some db \<Rightarrow>
         (if length archivedTasks = 0 then (w, None)
          else
            (let taskIds = map id_Task archivedTasks;
                 db1 = db\<lparr>logs_tbl :=
                           tbl_delete (\<lambda>l. taskId_Log l \<in> set taskIds) (logs_tbl db)\<rparr>
             in case handleDexieError (storageEnabled w) None of
                  Some e \<Rightarrow> (w\<lparr>dexieDb := Some db1\<rparr>, Some e)
                | None \<Rightarrow>
                   (let db2 = db1\<lparr>taskTagMap_tbl :=
                                   tbl_delete (\<lambda>m. taskId_Map m \<in> set taskIds)
                                     (taskTagMap_tbl db1)\<rparr>
                    in case handleDexieError (storageEnabled w) None of
                         Some e \<Rightarrow> (w\<lparr>dexieDb := Some db2\<rparr>, Some e)
                       | None \<Rightarrow>
                          (let db3 = db2\<lparr>tasks_tbl :=
                                          tbl_delete (\<lambda>t. id_Task t \<in> set taskIds)
                                            (tasks_tbl db2)\<rparr>
                           in case handleDexieError (storageEnabled w) None of
                                Some e \<Rightarrow> (w\<lparr>dexieDb := Some db3\<rparr>, Some e)
                              | None \<Rightarrow>
                                 (w\<lparr>dexieDb := Some db3,
                                    state := commit_deleteTasks (state w) taskIds\<rparr>,
                                  None))))))"


section \<open>Reading the database of a world\<close>

definition empty_db :: database where
  "empty_db = \<lparr>tasks_tbl = [], tags_tbl = [], taskTagMap_tbl = [], settings_tbl = [],
               logs_tbl = []\<rparr>"

definition db_of :: "world \<Rightarrow> database" where
  "db_of w = (case dexieDb w of None \<Rightarrow> empty_db | Some db \<Rightarrow> db)"

section \<open>A concrete world\<close>

text \<open>
  Two tasks: \<open>task-a\<close> is archived, is the selected task and has one finished interval;
  \<open>task-b\<close> is the active task and its timer is running.
\<close>

definition ex_task_a :: Task where
  "ex_task_a = \<lparr>id_Task = ''task-a'', name = ''write report'', notes_Task = [], order = 0,
                 created_at = 1000, completed = None, archived = Some True\<rparr>"

definition ex_task_b :: Task where
  "ex_task_b = \<lparr>id_Task = ''task-b'', name = ''read mail'', notes_Task = [], order = 1,
                 created_at = 1500, completed = None, archived = None\<rparr>"

definition ex_log_a :: TaskLog where
  "ex_log_a = \<lparr>id_Log = ''log-a'', taskId_Log = ''task-a'', started = 2000,
                stopped = Some 2600, timeSpent = Some 600\<rparr>"

definition ex_log_b :: TaskLog where
  "ex_log_b = \<lparr>id_Log = ''log-b'', taskId_Log = ''task-b'', started = 3000,
                stopped = None, timeSpent = None\<rparr>"

definition ex_state :: PomoTrackState where
  "ex_state =
     \<lparr>tasks = [(''task-a'', ex_task_a), (''task-b'', ex_task_b)],
      tags = [], tagOrder = [],
      taskTagsMap = [''task-a'' \<mapsto> [], ''task-b'' \<mapsto> []],
      settings = \<lparr>selectedTaskID = Some ''task-a'', selectedTagIds = [],
                  addSelectedTags = False\<rparr>,
      selectedTaskLogs = [ex_log_a],
      tempState = \<lparr>activeTaskID = Some ''task-b'', running = True, modalTagId = None\<rparr>,
      isActivityModalVisible = False\<rparr>"

definition ex_db :: database where
  "ex_db = \<lparr>tasks_tbl = [ex_task_a, ex_task_b], tags_tbl = [], taskTagMap_tbl = [],
            settings_tbl = [SelectedTaskID (Some ''task-a'')],
            logs_tbl = [ex_log_a, ex_log_b]\<rparr>"

definition ex_world :: "bool \<Rightarrow> world" where
  "ex_world enabled = \<lparr>dexieDb = Some ex_db, storageEnabled = enabled, state = ex_state\<rparr>"


section \<open>Reconciliation of the logs, by log\<close>

text \<open>
  What the reconciliation of \<^verbatim>\<open>loadInitialData\<close> does to one log: a log whose \<^verbatim>\<open>stopped\<close>
  is falsy and whose \<^verbatim>\<open>timeSpent\<close> is truthy is closed at \<^verbatim>\<open>started + timeSpent\<close>.
\<close>

definition close_orphan :: "TaskLog \<Rightarrow> TaskLog" where
  "close_orphan log =
     (case timeSpent log of
        None \<Rightarrow> log
      | Some spent \<Rightarrow>
          (if \<not> truthy_num (stopped log) \<and> spent \<noteq> 0
           then log\<lparr>stopped := Some (started log + spent)\<rparr> else log))"

text \<open>
  A logs table with a finished interval, a timer in progress (\<open>log-b\<close>), an orphaned
  running entry (\<open>log-d\<close>) and a running entry whose elapsed time is zero (\<open>log-z\<close>).
\<close>

definition ex_log_d :: TaskLog where
  "ex_log_d = \<lparr>id_Log = ''log-d'', taskId_Log = ''task-b'', started = 3000,
                stopped = None, timeSpent = Some 250\<rparr>"

definition ex_log_z :: TaskLog where
  "ex_log_z = \<lparr>id_Log = ''log-z'', taskId_Log = ''task-b'', started = 4000,
                stopped = None, timeSpent = Some 0\<rparr>"

definition ex_world_logs :: world where
  "ex_world_logs =
     \<lparr>dexieDb = Some (ex_db\<lparr>logs_tbl := [ex_log_a, ex_log_b, ex_log_d, ex_log_z]\<rparr>),
      storageEnabled = True, state = ex_state\<rparr>"

definition ex_initialSettings :: Settings where
  "ex_initialSettings = \<lparr>selectedTaskID = None, selectedTagIds = [], addSelectedTags = False\<rparr>"

section \<open>A world for reordering\<close>



section \<open>Agreement of the tag map with the association table\<close>

text \<open>
  The tag ids of the association rows of a task, in the order of the table, and the two
  readings of "\<^verbatim>\<open>state.taskTagsMap\<close> agrees with the association table": for every task
  of the state the entry is that list (\<open>taskTags_equal\<close>), or the entry holds the same
  tag ids with the same multiplicities (\<open>taskTags_consistent\<close>).
\<close>

definition tag_ids_of :: "database \<Rightarrow> ident \<Rightarrow> ident list" where
  "tag_ids_of db t = map tagId_Map (filter (\<lambda>m. taskId_Map m = t) (taskTagMap_tbl db))"

definition taskTags_equal :: "world \<Rightarrow> bool" where
  "taskTags_equal w =
     list_all (\<lambda>t. taskTagsMap (state w) t = Some (tag_ids_of (db_of w) t))
       (map fst (tasks (state w)))"

definition taskTags_consistent :: "world \<Rightarrow> bool" where
  "taskTags_consistent w =
     list_all (\<lambda>t. case taskTagsMap (state w) t of
                      None \<Rightarrow> False
                    | Some xs \<Rightarrow> mset xs = mset (tag_ids_of (db_of w) t))
       (map fst (tasks (state w)))"

text \<open>A world with two tags, of which \<open>tag-x\<close> is attached to \<open>task-b\<close>.\<close>

definition ex_tag_x :: Tag where
  "ex_tag_x = \<lparr>id_Tag = ''tag-x'', tagName = ''urgent'', color = ''#ff0000'', order_Tag = 0\<rparr>"

definition ex_tag_y :: Tag where
  "ex_tag_y = \<lparr>id_Tag = ''tag-y'', tagName = ''home'', color = ''#00ff00'', order_Tag = 1\<rparr>"

definition ex_row_x :: TaskTagMap where
  "ex_row_x = \<lparr>id_Map = ''taskTag-m2'', taskId_Map = ''task-b'', tagId_Map = ''tag-x''\<rparr>"

definition ex_world_tags :: world where
  "ex_world_tags =
     \<lparr>dexieDb = Some (ex_db\<lparr>tags_tbl := [ex_tag_x, ex_tag_y], taskTagMap_tbl := [ex_row_x]\<rparr>),
      storageEnabled = True,
      state = ex_state\<lparr>tags := [(''tag-x'', ex_tag_x), (''tag-y'', ex_tag_y)],
                        tagOrder := [''tag-x'', ''tag-y''],
                        taskTagsMap := [''task-a'' \<mapsto> [], ''task-b'' \<mapsto> [''tag-x'']]\<rparr>\<rparr>"

section \<open>Running logs and reachable states\<close>

text \<open>
  A running log is a log whose \<^verbatim>\<open>stopped\<close> is \<^verbatim>\<open>null\<close>. The states the application can
  reach: it starts on a database without logs, and each step is one of the actions, with
  any arguments, any clock readings and any generated ids. Between actions the storage
  manager may switch \<^verbatim>\<open>storageEnabled\<close>, and components may commit mutations of their
  own, which change the state of the store and not the database (the actions that only
  read the database, \<^verbatim>\<open>loadAllActivity\<close>, \<^verbatim>\<open>loadTagActivity\<close>, \<^verbatim>\<open>getLogById\<close>,
  \<^verbatim>\<open>openActivityModal\<close> and \<^verbatim>\<open>closeActivityModal\<close>, are steps of this kind).
\<close>

definition running_logs :: "world \<Rightarrow> TaskLog list" where
  "running_logs w = filter (\<lambda>l. stopped l = None) (logs_tbl (db_of w))"

definition at_most_one_running :: "world \<Rightarrow> bool" where
  "at_most_one_running w = (length (running_logs w) \<le> 1)"

text \<open>The invariant that carries the induction: the primary keys of the logs table are
  distinct and at most one log is running.\<close>

definition logs_wellformed :: "world \<Rightarrow> bool" where
  "logs_wellformed w =
     (distinct (map id_Log (logs_tbl (db_of w))) \<and> at_most_one_running w)"




section \<open>Frame lemmas\<close>

lemmas ex_defs = ex_world_def ex_db_def ex_state_def ex_task_a_def ex_task_b_def
  ex_log_a_def ex_log_b_def

lemma stopTask_frame:
  "tasks (state (fst (stopTask w t))) = tasks (state w)"
  "storageEnabled (fst (stopTask w t)) = storageEnabled w"
  "tasks_tbl (db_of (fst (stopTask w t))) = tasks_tbl (db_of w)"
  "(dexieDb (fst (stopTask w t)) = None) = (dexieDb w = None)"
  by (auto simp: stopTask_def db_of_def set_logs_def handleDexieError_def commit_updateLog_def
      Let_def split: option.splits)

lemma map_of_commit_updateTask:
  "map_of (tasks st) tid = Some task \<Longrightarrow>
   map_of (tasks (commit_updateTask st tid u)) tid = Some (spread task u)"
  by (simp add: commit_updateTask_def update_conv')

section \<open>Completion and archival of a task\<close>




section \<open>The storage guard\<close>

text \<open>
  C2 at a failing input: with \<^verbatim>\<open>storageEnabled\<close> unset, \<^verbatim>\<open>completeTask\<close> on the running
  \<open>task-b\<close> does not reject; it closes the running log and sets the completion time in
  the table, and updates the state.
\<close>

theorem completeTask_unguarded:
  "snd (completeTask (ex_world False) ''task-b'' 5000 5001) = None
   \<and> tasks_tbl (db_of (fst (completeTask (ex_world False) ''task-b'' 5000 5001)))
       = [ex_task_a, ex_task_b\<lparr>completed := Some 5001\<rparr>]
   \<and> logs_tbl (db_of (fst (completeTask (ex_world False) ''task-b'' 5000 5001)))
       = [ex_log_a, ex_log_b\<lparr>stopped := Some 5000, timeSpent := Some 2000\<rparr>]
   \<and> tasks (state (fst (completeTask (ex_world False) ''task-b'' 5000 5001)))
       = [(''task-a'', ex_task_a), (''task-b'', ex_task_b\<lparr>completed := Some 5001\<rparr>)]"
  by (simp add: completeTask_def stopTask_def ex_defs set_tasks_def set_logs_def db_of_def
      commit_updateTask_def commit_updateLog_def handleDexieError_def tbl_put_def tbl_update_def
      Let_def)

section \<open>The Restore button\<close>

text \<open>
  C9. \<^verbatim>\<open>archiveTask\<close> ignores an \<^verbatim>\<open>archived\<close> value in its payload and always toggles: with
  the database at hand, for every task of the state the result does not depend on the
  value supplied, and the task's \<^verbatim>\<open>archived\<close> property becomes the negation of its current
  truthiness, also when the Restore button dispatches it with \<^verbatim>\<open>archived: false\<close>; the
  task's row is updated alike.
\<close>

theorem archiveTask_ignores_archived_argument:
  assumes "dexieDb w = Some db" and "map_of (tasks (state w)) tid = Some task"
  shows "archiveTask w \<lparr>taskId = tid, archived_arg = a\<rparr> =
           archiveTask w \<lparr>taskId = tid, archived_arg = None\<rparr>
       \<and> map_of (tasks (state (fst (archiveTask w \<lparr>taskId = tid, archived_arg = a\<rparr>)))) tid =
           Some (task\<lparr>archived := Some (\<not> truthy_bool (archived task))\<rparr>)
       \<and> map_of (tasks (state (fst (unarchiveTask w tid)))) tid =
           Some (task\<lparr>archived := Some (\<not> truthy_bool (archived task))\<rparr>)
       \<and> tasks_tbl (db_of (fst (unarchiveTask w tid))) =
           tbl_update id_Task tid (\<lambda>t. t\<lparr>archived := Some (\<not> truthy_bool (archived task))\<rparr>)
             (tasks_tbl db)"
  using assms
  by (simp add: archiveTask_def unarchiveTask_def Let_def set_tasks_def db_of_def
      map_of_commit_updateTask)

text \<open>The theorem at \<open>task-b\<close>, which is not archived: Restore archives it.\<close>

theorem archiveTask_ignores_archived_argument_witness:
  "dexieDb (ex_world True) = Some ex_db
   \<and> map_of (tasks (state (ex_world True))) ''task-b'' = Some ex_task_b
   \<and> archived ex_task_b = None
   \<and> map_of (tasks (state (fst (unarchiveTask (ex_world True) ''task-b'')))) ''task-b'' =
       Some (ex_task_b\<lparr>archived := Some True\<rparr>)"
proof -
  have h1: "dexieDb (ex_world True) = Some ex_db" by (simp add: ex_world_def)
  have h2: "map_of (tasks (state (ex_world True))) ''task-b'' = Some ex_task_b"
    by (simp add: ex_world_def ex_state_def)
  have c: "archived ex_task_b = None" by (simp add: ex_task_b_def)
  show ?thesis
    using h1 h2 c archiveTask_ignores_archived_argument [OF h1 h2, of None] by simp
qed

section \<open>Existence checks\<close>

text \<open>
  C3 (as amended). For a \<^verbatim>\<open>taskId\<close> with no task in \<^verbatim>\<open>state.tasks\<close>, the actions
  \<^verbatim>\<open>updateTaskName\<close>, \<^verbatim>\<open>updateTaskNotes\<close>, \<^verbatim>\<open>completeTask\<close>, \<^verbatim>\<open>archiveTask\<close>,
  \<^verbatim>\<open>addInterval\<close> and \<^verbatim>\<open>addTaskTagById\<close> change neither the database nor the state.
  \<^verbatim>\<open>startTask\<close> adds no log and commits nothing for the missing task, but it has
  dispatched \<^verbatim>\<open>stopTask\<close> before the check: it leaves exactly the world that \<^verbatim>\<open>stopTask\<close>
  leaves.
\<close>

theorem missing_task_no_change:
  assumes "map_of (tasks (state w)) tid = None"
  shows "updateTaskName w tid nm = (w, None)
       \<and> updateTaskNotes w tid nts = (w, None)
       \<and> completeTask w tid tStop now = (w, None)
       \<and> archiveTask w \<lparr>taskId = tid, archived_arg = a\<rparr> = (w, None)
       \<and> addInterval w tid nid started_arg timeSpent_arg stopped_arg = (w, None)
       \<and> addTaskTagById w tid tagId nid = (w, None)
       \<and> startTask w tid nid tStop now = (fst (stopTask w tStop), None)"
proof -
  have s: "startTask w tid nid tStop now = (fst (stopTask w tStop), None)"
  proof (cases "dexieDb w")
    case None
    then show ?thesis by (simp add: startTask_def stopTask_def)
  next
    case (Some db)
    then show ?thesis using assms by (simp add: startTask_def Let_def stopTask_frame(1))
  qed
  show ?thesis using assms s
    by (simp add: updateTaskName_def updateTaskNotes_def completeTask_def archiveTask_def
        addInterval_def addTaskTagById_def split: option.splits)
qed

text \<open>The theorem at an identifier that the concrete world does not hold.\<close>

theorem missing_task_no_change_witness:
  "map_of (tasks (state (ex_world True))) ''task-zz'' = None
   \<and> completeTask (ex_world True) ''task-zz'' 5000 5001 = (ex_world True, None)
   \<and> addInterval (ex_world True) ''task-zz'' ''n1'' 10 20 30 = (ex_world True, None)
   \<and> startTask (ex_world True) ''task-zz'' ''n1'' 5000 5001 =
       (fst (stopTask (ex_world True) 5000), None)"
proof -
  have h: "map_of (tasks (state (ex_world True))) ''task-zz'' = None"
    by (simp add: ex_defs)
  show ?thesis
    using h missing_task_no_change [OF h, of _ _ 5000 5001 _ "''n1''" 10 20 30] by simp
qed

text \<open>
  C3 as stated fails for \<^verbatim>\<open>startTask\<close>: no task \<open>task-zz\<close> exists, and the action closes
  the running log of \<open>task-b\<close> in the table.
\<close>

theorem startTask_missing_task_counterexample:
  "map_of (tasks (state (ex_world True))) ''task-zz'' = None
   \<and> logs_tbl (db_of (ex_world True)) = [ex_log_a, ex_log_b]
   \<and> logs_tbl (db_of (fst (startTask (ex_world True) ''task-zz'' ''n1'' 5000 5001))) =
       [ex_log_a, ex_log_b\<lparr>stopped := Some 5000, timeSpent := Some 2000\<rparr>]"
  by (simp add: startTask_def stopTask_def ex_defs set_logs_def db_of_def
      commit_updateLog_def handleDexieError_def tbl_put_def Let_def)

section \<open>Lemmas on tables\<close>


lemma find_absent: "\<forall>x\<in>set rows. key x \<noteq> k \<Longrightarrow> find (\<lambda>x. key x = k) rows = None"
  by (induction rows) simp_all






section \<open>Tag filters\<close>




section \<open>Reconciling orphaned running logs\<close>

lemma tbl_put_present:
  "key r \<in> set (map key rows) \<Longrightarrow>
   tbl_put key r rows = map (\<lambda>x. if key x = key r then r else x) rows"
  by (simp add: tbl_put_def del: set_map)

lemma id_close_orphan [simp]: "id_Log (close_orphan l) = id_Log l"
  by (simp add: close_orphan_def split: option.splits)

lemma map_replace_distinct:
  "distinct (map key rows) \<Longrightarrow> l \<in> set rows \<Longrightarrow>
   map (\<lambda>x. if key x = key l then r else x) rows = map (\<lambda>x. if x = l then r else x) rows"
proof (rule map_cong [OF refl])
  fix x assume d: "distinct (map key rows)" and l: "l \<in> set rows" and x: "x \<in> set rows"
  have "key x = key l \<longleftrightarrow> x = l"
    using d l x by (meson distinct_map inj_on_def)
  then show "(if key x = key l then r else x) = (if x = l then r else x)" by simp
qed

lemma reconcile_step:
  "reconcile_logs True (l # ls) rows =
     reconcile_logs True ls
       (if \<not> truthy_num (stopped l) \<and> truthy_num (timeSpent l)
        then tbl_put id_Log (close_orphan l) rows else rows)"
  by (auto simp: close_orphan_def handleDexieError_def Let_def split: option.splits)

lemma close_orphan_other:
  "\<not> (\<not> truthy_num (stopped l) \<and> truthy_num (timeSpent l)) \<Longrightarrow> close_orphan l = l"
  by (auto simp: close_orphan_def split: option.splits)

lemma reconcile_logs_enabled:
  "distinct (map id_Log logs) \<Longrightarrow> distinct (map id_Log rows) \<Longrightarrow> set logs \<subseteq> set rows \<Longrightarrow>
   reconcile_logs True logs rows =
     (map (\<lambda>r. if r \<in> set logs then close_orphan r else r) rows, None)"
proof (induction logs arbitrary: rows)
  case Nil
  then show ?case by simp
next
  case (Cons l ls)
  let ?c = "close_orphan l"
  let ?rows1 = "map (\<lambda>x. if x = l then ?c else x) rows"
  have lin: "l \<in> set rows" using Cons.prems(3) by simp
  have lnot: "l \<notin> set ls" using Cons.prems(1) by auto
  have cnot: "?c \<notin> set ls"
  proof
    assume "?c \<in> set ls"
    then have "id_Log ?c \<in> set (map id_Log ls)" by (metis image_eqI set_map)
    then show False using Cons.prems(1) by simp
  qed
  have put: "(if \<not> truthy_num (stopped l) \<and> truthy_num (timeSpent l)
              then tbl_put id_Log ?c rows else rows) = ?rows1"
  proof (cases "\<not> truthy_num (stopped l) \<and> truthy_num (timeSpent l)")
    case False
    then have "?c = l" by (rule close_orphan_other)
    then have "?rows1 = rows" by (simp add: map_idI)
    moreover have "(if \<not> truthy_num (stopped l) \<and> truthy_num (timeSpent l)
              then tbl_put id_Log ?c rows else rows) = rows" using False by presburger
    ultimately show ?thesis by simp
  next
    case True
    have "id_Log ?c \<in> set (map id_Log rows)" using lin by (metis id_close_orphan image_eqI set_map)
    then have "tbl_put id_Log ?c rows = map (\<lambda>x. if id_Log x = id_Log ?c then ?c else x) rows"
      by (rule tbl_put_present)
    also have "\<dots> = ?rows1"
      using map_replace_distinct [OF Cons.prems(2) lin, of ?c] by simp
    finally show ?thesis using True by simp
  qed
  have ids1: "map id_Log ?rows1 = map id_Log rows" by (simp add: comp_def if_distrib cong: if_cong) 
  have d1: "distinct (map id_Log ?rows1)" using Cons.prems(2) by (simp only: ids1)
  have sub1: "set ls \<subseteq> set ?rows1"
  proof
    fix x assume x: "x \<in> set ls"
    then have "x \<in> set rows" "x \<noteq> l" using Cons.prems(3) lnot by auto
    then show "x \<in> set ?rows1" by (auto simp: image_iff)
  qed
  have d0: "distinct (map id_Log ls)" using Cons.prems(1) by simp
  have "reconcile_logs True (l # ls) rows = reconcile_logs True ls ?rows1"
    by (simp only: reconcile_step put)
  also have "\<dots> = (map (\<lambda>r. if r \<in> set ls then close_orphan r else r) ?rows1, None)"
    by (rule Cons.IH [OF d0 d1 sub1])
  also have "map (\<lambda>r. if r \<in> set ls then close_orphan r else r) ?rows1 =
             map (\<lambda>r. if r \<in> set (l # ls) then close_orphan r else r) rows"
    using lnot cnot by (auto simp: comp_def)
  finally show ?case .
qed

lemma loadInitialData_logs:
  assumes "dexieDb w = Some db" and "storageEnabled w" and "distinct (map id_Log (logs_tbl db))"
  shows "logs_tbl (db_of (fst (loadInitialData w initialSettings))) =
           map close_orphan (logs_tbl db)"
proof -
  have "reconcile_logs True (logs_tbl db) (logs_tbl db) = (map close_orphan (logs_tbl db), None)"
    using reconcile_logs_enabled [OF assms(3) assms(3) subset_refl]
    by (simp cong: map_cong)
  then show ?thesis using assms(1,2)
    by (simp add: loadInitialData_def Let_def set_logs_def db_of_def split: prod.splits)
qed


lemma tbl_get_map:
  "distinct (map key rows) \<Longrightarrow> l \<in> set rows \<Longrightarrow> (\<And>x. key (f x) = key x) \<Longrightarrow>
   tbl_get key (map f rows) (key l) = Some (f l)"
proof (induction rows)
  case Nil
  then show ?case by simp
next
  case (Cons a rows)
  show ?case
  proof (cases "a = l")
    case True
    then show ?thesis using Cons.prems(3) by (simp add: tbl_get_def)
  next
    case False
    then have lin: "l \<in> set rows" using Cons.prems(2) by simp
    then have "key l \<in> set (map key rows)" by (metis image_eqI set_map)
    then have "key a \<noteq> key l" using Cons.prems(1) by auto
    moreover have "tbl_get key (map f rows) (key l) = Some (f l)"
      using Cons.IH [OF _ lin Cons.prems(3)] Cons.prems(1) by simp
    ultimately show ?thesis using Cons.prems(3) by (simp add: tbl_get_def)
  qed
qed

lemmas ex_logs_defs = ex_world_logs_def ex_db_def ex_log_a_def ex_log_b_def ex_log_d_def
  ex_log_z_def

lemma ex_world_logs_facts:
  "dexieDb ex_world_logs = Some (ex_db\<lparr>logs_tbl := [ex_log_a, ex_log_b, ex_log_d, ex_log_z]\<rparr>)"
  "storageEnabled ex_world_logs"
  "distinct (map id_Log (logs_tbl (ex_db\<lparr>logs_tbl := [ex_log_a, ex_log_b, ex_log_d, ex_log_z]\<rparr>)))"
  by (simp_all add: ex_logs_defs)

text \<open>
  C1 (as amended). With the database at hand and storage enabled, \<^verbatim>\<open>loadInitialData\<close>
  leaves the logs table with the same keys, and for every log \<open>l\<close> of the table (whose
  primary keys are distinct): if \<^verbatim>\<open>stopped\<close> is unset (or zero) and \<^verbatim>\<open>timeSpent\<close> is set and
  not zero, the table afterwards holds under the log's key the log with
  \<^verbatim>\<open>stopped = started + timeSpent\<close>; if \<^verbatim>\<open>stopped\<close> and \<^verbatim>\<open>timeSpent\<close> are both unset, it
  holds the log unchanged.
\<close>

theorem loadInitialData_reconciles:
  assumes "dexieDb w = Some db" and "storageEnabled w"
    and "distinct (map id_Log (logs_tbl db))" and "l \<in> set (logs_tbl db)"
  shows "(\<not> truthy_num (stopped l) \<and> timeSpent l = Some spent \<and> spent \<noteq> 0 \<longrightarrow>
            tbl_get id_Log (logs_tbl (db_of (fst (loadInitialData w initialSettings)))) (id_Log l)
              = Some (l\<lparr>stopped := Some (started l + spent)\<rparr>))
       \<and> (stopped l = None \<and> timeSpent l = None \<longrightarrow>
            tbl_get id_Log (logs_tbl (db_of (fst (loadInitialData w initialSettings)))) (id_Log l)
              = Some l)
       \<and> map id_Log (logs_tbl (db_of (fst (loadInitialData w initialSettings))))
            = map id_Log (logs_tbl db)"
proof -
  let ?L = "logs_tbl (db_of (fst (loadInitialData w initialSettings)))"
  have L: "?L = map close_orphan (logs_tbl db)"
    using assms(1-3) by (rule loadInitialData_logs)
  have g: "tbl_get id_Log ?L (id_Log l) = Some (close_orphan l)"
    unfolding L using assms(3,4) by (rule tbl_get_map) simp
  have c1: "\<not> truthy_num (stopped l) \<and> timeSpent l = Some spent \<and> spent \<noteq> 0 \<longrightarrow>
            close_orphan l = l\<lparr>stopped := Some (started l + spent)\<rparr>"
    by (simp add: close_orphan_def)
  have c2: "stopped l = None \<and> timeSpent l = None \<longrightarrow> close_orphan l = l"
    by (simp add: close_orphan_def)
  have ids: "map id_Log ?L = map id_Log (logs_tbl db)"
    unfolding L by (simp add: comp_def)
  from g c1 c2 ids show ?thesis by simp
qed

text \<open>The theorem at the orphaned entry \<open>log-d\<close>, closed at 3000 + 250.\<close>

theorem loadInitialData_reconciles_witness:
  "dexieDb ex_world_logs = Some (ex_db\<lparr>logs_tbl := [ex_log_a, ex_log_b, ex_log_d, ex_log_z]\<rparr>)
   \<and> storageEnabled ex_world_logs
   \<and> distinct (map id_Log [ex_log_a, ex_log_b, ex_log_d, ex_log_z])
   \<and> ex_log_d \<in> set [ex_log_a, ex_log_b, ex_log_d, ex_log_z]
   \<and> \<not> truthy_num (stopped ex_log_d) \<and> timeSpent ex_log_d = Some 250
   \<and> tbl_get id_Log (logs_tbl (db_of (fst (loadInitialData ex_world_logs ex_initialSettings))))
        ''log-d'' = Some (ex_log_d\<lparr>stopped := Some 3250\<rparr>)"
proof -
  have m: "ex_log_d \<in> set (logs_tbl (ex_db\<lparr>logs_tbl := [ex_log_a, ex_log_b, ex_log_d, ex_log_z]\<rparr>))"
    by simp
  have f: "\<not> truthy_num (stopped ex_log_d)" "timeSpent ex_log_d = Some 250"
    "started ex_log_d = 3000" "id_Log ex_log_d = ''log-d''"
    by (simp_all add: ex_log_d_def)
  show ?thesis
    using loadInitialData_reconciles [OF ex_world_logs_facts m, of 250 ex_initialSettings]
      ex_world_logs_facts f
    by simp
qed

text \<open>
  C1 as stated fails: \<open>log-z\<close> has \<^verbatim>\<open>stopped\<close> unset and \<^verbatim>\<open>timeSpent\<close> set, to zero; the
  test \<^verbatim>\<open>log.timeSpent\<close> is falsy and the log stays as it is, with \<^verbatim>\<open>stopped\<close> unset.
\<close>

theorem loadInitialData_zero_timeSpent_counterexample:
  "ex_log_z \<in> set (logs_tbl (db_of ex_world_logs))
   \<and> stopped ex_log_z = None \<and> timeSpent ex_log_z = Some 0
   \<and> tbl_get id_Log (logs_tbl (db_of (fst (loadInitialData ex_world_logs ex_initialSettings))))
        (id_Log ex_log_z) = Some ex_log_z"
proof -
  have "logs_tbl (db_of (fst (loadInitialData ex_world_logs ex_initialSettings))) =
          map close_orphan [ex_log_a, ex_log_b, ex_log_d, ex_log_z]"
    using loadInitialData_logs [OF ex_world_logs_facts, of ex_initialSettings] by simp
  then show ?thesis
    by (simp add: close_orphan_def tbl_get_def db_of_def ex_logs_defs)
qed

section \<open>Reordering the incomplete tasks: the order is the index\<close>






















section \<open>Deleting the archived tasks\<close>

lemma delete_is_filter: "AList.delete k al = filter (\<lambda>(k', v). k' \<noteq> k) al"
  by (induction al) auto

lemma commit_deleteTasks_Cons:
  "commit_deleteTasks st (a # taskIds) =
     commit_deleteTasks (st\<lparr>tasks := AList.delete a (tasks st),
                            taskTagsMap := (taskTagsMap st)(a := None)\<rparr>) taskIds"
  by (simp add: commit_deleteTasks_def)

lemma commit_deleteTasks_fields:
  "tasks (commit_deleteTasks st taskIds) = filter (\<lambda>(k, t). k \<notin> set taskIds) (tasks st)
   \<and> taskTagsMap (commit_deleteTasks st taskIds) =
       (\<lambda>k. if k \<in> set taskIds then None else taskTagsMap st k)
   \<and> selectedTaskLogs (commit_deleteTasks st taskIds) = selectedTaskLogs st
   \<and> settings (commit_deleteTasks st taskIds) = settings st"
proof (induction taskIds arbitrary: st)
  case Nil
  show ?case by (simp add: commit_deleteTasks_def)
next
  case (Cons a taskIds)
  show ?case
    by (auto simp add: commit_deleteTasks_Cons Cons.IH delete_is_filter fun_eq_iff split_def
        intro: filter_cong)
qed

lemma deleteAllArchivedTasks_enabled:
  assumes "dexieDb w = Some db" and "storageEnabled w" and "archivedTasks \<noteq> []"
  shows "deleteAllArchivedTasks w archivedTasks =
     (w\<lparr>dexieDb := Some (db\<lparr>
           logs_tbl := tbl_delete (\<lambda>l. taskId_Log l \<in> set (map id_Task archivedTasks)) (logs_tbl db),
           taskTagMap_tbl := tbl_delete (\<lambda>m. taskId_Map m \<in> set (map id_Task archivedTasks))
                               (taskTagMap_tbl db),
           tasks_tbl := tbl_delete (\<lambda>t. id_Task t \<in> set (map id_Task archivedTasks)) (tasks_tbl db)\<rparr>),
        state := commit_deleteTasks (state w) (map id_Task archivedTasks)\<rparr>, None)"
  using assms by (simp add: deleteAllArchivedTasks_def handleDexieError_def Let_def)

lemma ex_world_facts:
  "dexieDb (ex_world True) = Some ex_db"
  "storageEnabled (ex_world True)"
  "distinct (map fst (tasks (state (ex_world True))))"
  "\<forall>(k, t)\<in>set (tasks (state (ex_world True))). id_Task t = k"
  "[ex_task_a] = filter (\<lambda>t. truthy_bool (archived t)) (map snd (tasks (state (ex_world True))))"
  by (simp_all add: ex_defs)

text \<open>
  C10 (as amended). With the database at hand and storage enabled, in a state whose task
  dictionary has distinct keys, each the id of its task, and with the getter returning
  the tasks of the state whose \<^verbatim>\<open>archived\<close> is truthy: after \<^verbatim>\<open>deleteAllArchivedTasks\<close> the
  state keeps exactly the tasks that are not archived, \<^verbatim>\<open>taskTagsMap\<close> has no entry for a
  deleted task, and the tables keep exactly the task rows, the logs and the task-tag rows
  that do not belong to a deleted task; with no archived task the action changes nothing.
  (Nothing is said of \<^verbatim>\<open>selectedTaskLogs\<close>.)
\<close>

theorem deleteAllArchivedTasks_cascade:
  assumes "dexieDb w = Some db" and "storageEnabled w"
    and "distinct (map fst (tasks (state w)))"
    and "\<forall>(k, t)\<in>set (tasks (state w)). id_Task t = k"
    and "archivedTasks = filter (\<lambda>t. truthy_bool (archived t)) (map snd (tasks (state w)))"
    and "w' = fst (deleteAllArchivedTasks w archivedTasks)"
    and "ids = set (map id_Task archivedTasks)"
  shows "tasks (state w') = filter (\<lambda>(k, t). \<not> truthy_bool (archived t)) (tasks (state w))
       \<and> taskTagsMap (state w') = (\<lambda>k. if k \<in> ids then None else taskTagsMap (state w) k)
       \<and> tasks_tbl (db_of w') = filter (\<lambda>t. id_Task t \<notin> ids) (tasks_tbl db)
       \<and> logs_tbl (db_of w') = filter (\<lambda>l. taskId_Log l \<notin> ids) (logs_tbl db)
       \<and> taskTagMap_tbl (db_of w') = filter (\<lambda>m. taskId_Map m \<notin> ids) (taskTagMap_tbl db)
       \<and> (archivedTasks = [] \<longrightarrow> deleteAllArchivedTasks w archivedTasks = (w, None))"
proof -
  have k: "k \<in> ids \<longleftrightarrow> truthy_bool (archived t)" if m: "(k, t) \<in> set (tasks (state w))" for k t
  proof
    assume "k \<in> ids"
    then obtain t' where t': "t' \<in> set archivedTasks" "id_Task t' = k"
      using assms(7) by auto
    then obtain k' where k': "(k', t') \<in> set (tasks (state w))" and a: "truthy_bool (archived t')"
      using assms(5) by auto
    from k' assms(4) t'(2) have "k' = k" by auto
    with k' m assms(3) have "t' = t" by (metis eq_key_imp_eq_value)
    with a show "truthy_bool (archived t)" by simp
  next
    assume "truthy_bool (archived t)"
    with m have "t \<in> set archivedTasks" using assms(5) by force
    moreover from m assms(4) have "id_Task t = k" by auto
    ultimately show "k \<in> ids" using assms(7) by force
  qed
  have f: "filter (\<lambda>(k, t). k \<notin> ids) (tasks (state w)) =
           filter (\<lambda>(k, t). \<not> truthy_bool (archived t)) (tasks (state w))"
    by (rule filter_cong [OF refl]) (use k in auto)
  show ?thesis
  proof (cases "archivedTasks = []")
    case True
    have e: "deleteAllArchivedTasks w archivedTasks = (w, None)"
      using True by (simp add: deleteAllArchivedTasks_def split: option.splits)
    have i: "ids = {}" using True assms(7) by simp
    have w: "w' = w" using e assms(6) by simp
    have ff: "filter (\<lambda>(k, t). \<not> truthy_bool (archived t)) (tasks (state w)) = tasks (state w)"
      using f [symmetric] by (simp add: i)
    have e0: "deleteAllArchivedTasks w [] = (w, None)" using e True by simp
    show ?thesis using e0 assms(1) ff by (simp add: w db_of_def i)
  next
    case False
    have r: "w' = w\<lparr>dexieDb := Some (db\<lparr>
           logs_tbl := tbl_delete (\<lambda>l. taskId_Log l \<in> ids) (logs_tbl db),
           taskTagMap_tbl := tbl_delete (\<lambda>m. taskId_Map m \<in> ids) (taskTagMap_tbl db),
           tasks_tbl := tbl_delete (\<lambda>t. id_Task t \<in> ids) (tasks_tbl db)\<rparr>),
        state := commit_deleteTasks (state w) (map id_Task archivedTasks)\<rparr>"
      using deleteAllArchivedTasks_enabled [OF assms(1,2) False] assms(6,7) by simp
    have t: "tasks (state w') = filter (\<lambda>(k, t). \<not> truthy_bool (archived t)) (tasks (state w))"
      using f assms(7) by (simp add: r commit_deleteTasks_fields)
    have m: "taskTagsMap (state w') = (\<lambda>k. if k \<in> ids then None else taskTagsMap (state w) k)"
      using assms(7) by (simp add: r commit_deleteTasks_fields)
    have d: "tasks_tbl (db_of w') = filter (\<lambda>t. id_Task t \<notin> ids) (tasks_tbl db)"
      "logs_tbl (db_of w') = filter (\<lambda>l. taskId_Log l \<notin> ids) (logs_tbl db)"
      "taskTagMap_tbl (db_of w') = filter (\<lambda>m. taskId_Map m \<notin> ids) (taskTagMap_tbl db)"
      by (simp_all add: r db_of_def tbl_delete_def)
    from t m d False show ?thesis by simp
  qed
qed

text \<open>The theorem at the concrete world, where \<open>task-a\<close> is the archived task.\<close>

theorem deleteAllArchivedTasks_cascade_witness:
  "dexieDb (ex_world True) = Some ex_db \<and> storageEnabled (ex_world True)
   \<and> distinct (map fst (tasks (state (ex_world True))))
   \<and> map id_Task (map snd (tasks (state (ex_world True)))) = map fst (tasks (state (ex_world True)))
   \<and> [ex_task_a] = filter (\<lambda>t. truthy_bool (archived t)) (map snd (tasks (state (ex_world True))))
   \<and> tasks (state (fst (deleteAllArchivedTasks (ex_world True) [ex_task_a]))) =
       [(''task-b'', ex_task_b)]
   \<and> tasks_tbl (db_of (fst (deleteAllArchivedTasks (ex_world True) [ex_task_a]))) = [ex_task_b]
   \<and> logs_tbl (db_of (fst (deleteAllArchivedTasks (ex_world True) [ex_task_a]))) = [ex_log_b]"
proof -
  note t = deleteAllArchivedTasks_cascade [OF ex_world_facts refl refl]
  have ki: "map id_Task (map snd (tasks (state (ex_world True)))) =
              map fst (tasks (state (ex_world True)))"
    by (simp add: ex_defs)
  have a: "tasks (state (fst (deleteAllArchivedTasks (ex_world True) [ex_task_a]))) =
       [(''task-b'', ex_task_b)]"
    using t by (simp add: ex_defs)
  have b: "tasks_tbl (db_of (fst (deleteAllArchivedTasks (ex_world True) [ex_task_a]))) = [ex_task_b]"
    using t by (simp add: ex_defs)
  have c: "logs_tbl (db_of (fst (deleteAllArchivedTasks (ex_world True) [ex_task_a]))) = [ex_log_b]"
    using t by (simp add: ex_defs)
  from ex_world_facts(1-3,5) ki a b c show ?thesis by blast
qed

text \<open>
  C10 as stated fails for the logs of the store: \<open>task-a\<close> is archived and selected;
  after the action the task is gone from the state, and \<^verbatim>\<open>selectedTaskLogs\<close> still holds
  its log.
\<close>

theorem deleteAllArchivedTasks_stale_logs_counterexample:
  "truthy_bool (archived ex_task_a)
   \<and> map_of (tasks (state (ex_world True))) ''task-a'' = Some ex_task_a
   \<and> map_of (tasks (state (fst (deleteAllArchivedTasks (ex_world True) [ex_task_a])))) ''task-a''
       = None
   \<and> selectedTaskLogs (state (fst (deleteAllArchivedTasks (ex_world True) [ex_task_a])))
       = [ex_log_a]
   \<and> taskId_Log ex_log_a = ''task-a''"
  by (simp add: deleteAllArchivedTasks_def handleDexieError_def commit_deleteTasks_def Let_def
      ex_defs)

section \<open>The tag map follows the association table\<close>

lemma opt_case_ex:
  "(case x of None \<Rightarrow> False | Some xs \<Rightarrow> P xs) \<longleftrightarrow> (\<exists>xs. x = Some xs \<and> P xs)"
  by (cases x) simp_all

lemma taskTags_consistent_iff:
  "taskTags_consistent w \<longleftrightarrow>
     (\<forall>t\<in>set (map fst (tasks (state w))). \<exists>xs. taskTagsMap (state w) t = Some xs \<and>
        mset xs = mset (map tagId_Map (filter (\<lambda>m. taskId_Map m = t) (taskTagMap_tbl (db_of w)))))"
  by (simp only: taskTags_consistent_def tag_ids_of_def list_all_iff opt_case_ex)

lemma map_of_key_mem: "map_of al k = Some v \<Longrightarrow> k \<in> set (map fst al)"
  by (metis map_of_SomeD image_eqI fst_conv set_map)

lemma mset_tagIds_insort:
  "mset (map tagId_Map (filter (\<lambda>m. taskId_Map m = t) (insort_key id_Map r rows))) =
     (if taskId_Map r = t then add_mset (tagId_Map r) else (\<lambda>x. x))
       (mset (map tagId_Map (filter (\<lambda>m. taskId_Map m = t) rows)))"
proof -
  have "mset (filter (\<lambda>m. taskId_Map m = t) (insort_key id_Map r rows)) =
          filter_mset (\<lambda>m. taskId_Map m = t) (add_mset r (mset rows))"
    by (simp only: mset_filter mset_insort)
  then have "mset (map tagId_Map (filter (\<lambda>m. taskId_Map m = t) (insort_key id_Map r rows))) =
          image_mset tagId_Map (filter_mset (\<lambda>m. taskId_Map m = t) (add_mset r (mset rows)))"
    by (simp only: mset_map)
  then show ?thesis by simp
qed

text \<open>Adding one association row and pushing its tag id keeps the agreement.\<close>

lemma add_row_push_consistent:
  assumes c: "taskTags_consistent w"
    and t: "tid \<in> set (map fst (tasks (state w)))"
    and ks: "map fst (tasks (state w')) = map fst (tasks (state w))"
    and m: "\<And>xs. taskTagsMap (state w) tid = Some xs \<Longrightarrow>
              taskTagsMap (state w') = (taskTagsMap (state w))(tid \<mapsto> xs @ [g])"
    and r: "taskTagMap_tbl (db_of w') =
              insort_key id_Map \<lparr>id_Map = i, taskId_Map = tid, tagId_Map = g\<rparr>
                (taskTagMap_tbl (db_of w))"
  shows "taskTags_consistent w'"
  unfolding taskTags_consistent_iff
proof
  fix k assume "k \<in> set (map fst (tasks (state w')))"
  then have k: "k \<in> set (map fst (tasks (state w)))" by (simp only: ks)
  from c t obtain xs where xs: "taskTagsMap (state w) tid = Some xs"
      "mset xs = mset (map tagId_Map (filter (\<lambda>m. taskId_Map m = tid) (taskTagMap_tbl (db_of w))))"
    unfolding taskTags_consistent_iff by blast
  from c k obtain ys where ys: "taskTagsMap (state w) k = Some ys"
      "mset ys = mset (map tagId_Map (filter (\<lambda>m. taskId_Map m = k) (taskTagMap_tbl (db_of w))))"
    unfolding taskTags_consistent_iff by blast
  have m': "taskTagsMap (state w') = (taskTagsMap (state w))(tid \<mapsto> xs @ [g])"
    using xs(1) by (rule m)
  show "\<exists>zs. taskTagsMap (state w') k = Some zs \<and>
          mset zs = mset (map tagId_Map (filter (\<lambda>m. taskId_Map m = k) (taskTagMap_tbl (db_of w'))))"
  proof (cases "k = tid")
    case True
    then show ?thesis using xs by (simp add: m' r mset_tagIds_insort)
  next
    case False
    then show ?thesis using ys by (simp add: m' r mset_tagIds_insort)
  qed
qed

lemma commit_addTaskTag_Some:
  "taskTagsMap st tid = Some xs \<Longrightarrow>
   commit_addTaskTag st tid tag isNewTag =
     ((if isNewTag then st\<lparr>tags := AList.update (id_Tag tag) tag (tags st),
                            tagOrder := tagOrder st @ [id_Tag tag]\<rparr> else st)
        \<lparr>taskTagsMap := (taskTagsMap st)(tid \<mapsto> xs @ [id_Tag tag])\<rparr>, None)"
  by (simp add: commit_addTaskTag_def)

lemma consistent_entry:
  "taskTags_consistent w \<Longrightarrow> map_of (tasks (state w)) tid = Some task \<Longrightarrow>
   \<exists>xs. taskTagsMap (state w) tid = Some xs"
proof -
  assume c: "taskTags_consistent w" and t: "map_of (tasks (state w)) tid = Some task"
  from t have "tid \<in> set (map fst (tasks (state w)))" by (rule map_of_key_mem)
  with c show ?thesis unfolding taskTags_consistent_iff by blast
qed

lemma consistent_cong:
  "taskTags_consistent w \<Longrightarrow> map fst (tasks (state w')) = map fst (tasks (state w)) \<Longrightarrow>
   taskTagsMap (state w') = taskTagsMap (state w) \<Longrightarrow>
   taskTagMap_tbl (db_of w') = taskTagMap_tbl (db_of w) \<Longrightarrow> taskTags_consistent w'"
  by (simp add: taskTags_consistent_iff)

lemma addTaskTagById_consistent:
  assumes "taskTags_consistent w" and "storageEnabled w"
    and "\<forall>(k, g)\<in>set (tags (state w)). id_Tag g = k"
  shows "taskTags_consistent (fst (addTaskTagById w tid tagId nid))"
proof (cases "dexieDb w")
  case None
  then show ?thesis using assms(1) by (simp add: addTaskTagById_def)
next
  case (Some db)
  show ?thesis
  proof (cases "map_of (tasks (state w)) tid")
    case None
    then show ?thesis using assms(1) Some by (simp add: addTaskTagById_def)
  next
    case task: (Some task)
    show ?thesis
    proof (cases "map_of (tags (state w)) tagId")
      case None
      then show ?thesis using assms(1) Some task by (simp add: addTaskTagById_def)
    next
      case tag: (Some tag)
      then have "(tagId, tag) \<in> set (tags (state w))" by (rule map_of_SomeD)
      with assms(3) have g: "id_Tag tag = tagId" by auto
      obtain xs where xs: "taskTagsMap (state w) tid = Some xs"
        using consistent_entry [OF assms(1) task] by blast
      let ?row = "\<lparr>id_Map = ''taskTag-'' @ nid, taskId_Map = tid, tagId_Map = tagId\<rparr>"
      show ?thesis
      proof (cases "id_Map ?row \<in> set (map id_Map (taskTagMap_tbl db))")
        case True
        then have "fst (addTaskTagById w tid tagId nid) =
                     w\<lparr>dexieDb := Some (db\<lparr>taskTagMap_tbl := taskTagMap_tbl db\<rparr>)\<rparr>"
          using Some task tag assms(2)
          by (simp add: addTaskTagById_def tbl_add_def handleDexieError_def set_taskTagMap_def
              del: set_map)
        then show ?thesis using assms(1) Some
          by (intro consistent_cong [OF assms(1)]) (simp_all add: db_of_def)
      next
        case False
        then have e: "fst (addTaskTagById w tid tagId nid) =
            (w\<lparr>dexieDb := Some (db\<lparr>taskTagMap_tbl := insort_key id_Map ?row (taskTagMap_tbl db)\<rparr>),
               state := (state w)\<lparr>taskTagsMap := (taskTagsMap (state w))(tid \<mapsto> xs @ [tagId])\<rparr>\<rparr>)"
          using Some task tag assms(2) xs g
          by (simp add: addTaskTagById_def tbl_add_def handleDexieError_def set_taskTagMap_def
              commit_addTaskTag_Some del: set_map)
        show ?thesis
        proof (rule add_row_push_consistent [OF assms(1) map_of_key_mem [OF task]])
          show "map fst (tasks (state (fst (addTaskTagById w tid tagId nid)))) =
                  map fst (tasks (state w))" by (simp add: e)
          show "taskTagsMap (state (fst (addTaskTagById w tid tagId nid))) =
                  (taskTagsMap (state w))(tid \<mapsto> ys @ [tagId])"
            if "taskTagsMap (state w) tid = Some ys" for ys
            using that xs by (simp add: e)
          show "taskTagMap_tbl (db_of (fst (addTaskTagById w tid tagId nid))) =
                  insort_key id_Map \<lparr>id_Map = ''taskTag-'' @ nid, taskId_Map = tid, tagId_Map = tagId\<rparr>
                    (taskTagMap_tbl (db_of w))"
            using Some by (simp add: e db_of_def)
        qed
      qed
    qed
  qed
qed

lemma link_tag_consistent:
  assumes c: "taskTags_consistent w" and db: "dexieDb w = Some db"
    and task: "map_of (tasks (state w)) tid = Some task"
  shows "taskTags_consistent (fst (link_tag w db tid nidMap tag isNewTag))"
proof -
  obtain xs where xs: "taskTagsMap (state w) tid = Some xs"
    using consistent_entry [OF c task] by blast
  let ?row = "\<lparr>id_Map = ''taskTag-'' @ nidMap, taskId_Map = tid, tagId_Map = id_Tag tag\<rparr>"
  show ?thesis
  proof (cases "id_Map ?row \<in> set (map id_Map (taskTagMap_tbl db))")
    case True
    then have "fst (link_tag w db tid nidMap tag isNewTag) =
                 w\<lparr>dexieDb := Some (db\<lparr>taskTagMap_tbl := taskTagMap_tbl db\<rparr>)\<rparr>"
      by (simp add: link_tag_def tbl_add_def set_taskTagMap_def del: set_map)
    then show ?thesis using db
      by (intro consistent_cong [OF c]) (simp_all add: db_of_def)
  next
    case False
    then have e: "fst (link_tag w db tid nidMap tag isNewTag) =
        w\<lparr>dexieDb := Some (db\<lparr>taskTagMap_tbl := insort_key id_Map ?row (taskTagMap_tbl db)\<rparr>),
          state := (if isNewTag then (state w)\<lparr>tags := AList.update (id_Tag tag) tag (tags (state w)),
                            tagOrder := tagOrder (state w) @ [id_Tag tag]\<rparr> else state w)
                     \<lparr>taskTagsMap := (taskTagsMap (state w))(tid \<mapsto> xs @ [id_Tag tag])\<rparr>\<rparr>"
      using xs
      by (simp add: link_tag_def tbl_add_def set_taskTagMap_def commit_addTaskTag_Some
          del: set_map)
    show ?thesis
    proof (rule add_row_push_consistent [OF c map_of_key_mem [OF task]])
      show "map fst (tasks (state (fst (link_tag w db tid nidMap tag isNewTag)))) =
              map fst (tasks (state w))" by (simp add: e)
      show "taskTagsMap (state (fst (link_tag w db tid nidMap tag isNewTag))) =
              (taskTagsMap (state w))(tid \<mapsto> ys @ [id_Tag tag])"
        if "taskTagsMap (state w) tid = Some ys" for ys
        using that xs by (simp add: e)
      show "taskTagMap_tbl (db_of (fst (link_tag w db tid nidMap tag isNewTag))) =
              insort_key id_Map \<lparr>id_Map = ''taskTag-'' @ nidMap, taskId_Map = tid,
                                  tagId_Map = id_Tag tag\<rparr> (taskTagMap_tbl (db_of w))"
        using db by (simp add: e db_of_def)
    qed
  qed
qed

lemma addTaskTagByName_consistent:
  assumes c: "taskTags_consistent w"
  shows "taskTags_consistent (fst (addTaskTagByName w tid nm nidTag nidMap randomColor))"
proof (cases "dexieDb w")
  case None
  then show ?thesis using c by (simp add: addTaskTagByName_def)
next
  case (Some db)
  show ?thesis
  proof (cases "trim nm = [] \<or> map_of (tasks (state w)) tid = None")
    case True
    then show ?thesis using c Some by (auto simp: addTaskTagByName_def Let_def)
  next
    case False
    then obtain task where task: "map_of (tasks (state w)) tid = Some task"
      and nm: "trim nm \<noteq> []" by auto
    show ?thesis
    proof (cases "find (\<lambda>g. tagName g = trim nm) (tags_tbl db)")
      case (Some tag)
      then have "addTaskTagByName w tid nm nidTag nidMap randomColor =
                   link_tag w db tid nidMap tag False"
        using \<open>dexieDb w = Some db\<close> task nm by (simp add: addTaskTagByName_def Let_def)
      then show ?thesis using link_tag_consistent [OF c \<open>dexieDb w = Some db\<close> task] by simp
    next
      case None
      let ?ord = "(case sort_key order_Tag (tags_tbl db) of [] \<Rightarrow> 0
                   | g # gs \<Rightarrow> order_Tag (last (g # gs)) + 1)"
      let ?tag = "\<lparr>id_Tag = ''tag-'' @ nidTag, tagName = trim nm, color = randomColor,
                    order_Tag = ?ord\<rparr>"
      obtain rows r where a: "tbl_add id_Tag ?tag (tags_tbl db) = (rows, r)"
        by (cases "tbl_add id_Tag ?tag (tags_tbl db)") auto
      let ?w1 = "w\<lparr>dexieDb := Some (db\<lparr>tags_tbl := rows\<rparr>)\<rparr>"
      have c1: "taskTags_consistent ?w1"
        using \<open>dexieDb w = Some db\<close>
        by (intro consistent_cong [OF c]) (simp_all add: db_of_def)
      have d1: "dexieDb ?w1 = Some (db\<lparr>tags_tbl := rows\<rparr>)" by simp
      have t1: "map_of (tasks (state ?w1)) tid = Some task" using task by simp
      have "fst (addTaskTagByName w tid nm nidTag nidMap randomColor) =
              (case r of Some e \<Rightarrow> ?w1
               | None \<Rightarrow> fst (link_tag ?w1 (db\<lparr>tags_tbl := rows\<rparr>) tid nidMap ?tag True))"
        using \<open>dexieDb w = Some db\<close> task nm None a
        by (simp add: addTaskTagByName_def Let_def split: option.splits)
      then show ?thesis
        using c1 link_tag_consistent [OF c1 d1 t1] by (simp split: option.splits)
    qed
  qed
qed

lemma removeTaskTag_consistent:
  assumes c: "taskTags_consistent w"
  shows "taskTags_consistent (fst (removeTaskTag w tid tagId))"
proof (cases "dexieDb w")
  case None
  then show ?thesis using c by (simp add: removeTaskTag_def)
next
  case (Some db)
  let ?R = "filter (\<lambda>m. \<not> (taskId_Map m = tid \<and> tagId_Map m = tagId)) (taskTagMap_tbl db)"
  have e: "fst (removeTaskTag w tid tagId) =
      w\<lparr>dexieDb := Some (db\<lparr>taskTagMap_tbl := ?R\<rparr>),
        state := (state w)\<lparr>taskTagsMap := (taskTagsMap (state w))
                   (tid \<mapsto> map tagId_Map (filter (\<lambda>m. taskId_Map m = tid) ?R))\<rparr>\<rparr>"
    using Some
    by (simp add: removeTaskTag_def Let_def tbl_delete_def set_taskTagMap_def
        commit_deleteTaskTag_def)
  have other: "filter (\<lambda>m. taskId_Map m = k) ?R = filter (\<lambda>m. taskId_Map m = k) (taskTagMap_tbl db)"
    if "k \<noteq> tid" for k
    using that by (auto simp: filter_filter intro: filter_cong)
  have dbw: "taskTagMap_tbl (db_of w) = taskTagMap_tbl db" using Some by (simp add: db_of_def)
  show ?thesis
    unfolding taskTags_consistent_iff
  proof
    fix k assume "k \<in> set (map fst (tasks (state (fst (removeTaskTag w tid tagId)))))"
    then have k: "k \<in> set (map fst (tasks (state w)))" by (simp add: e)
    from c k obtain ys where ys: "taskTagsMap (state w) k = Some ys"
      "mset ys = mset (map tagId_Map (filter (\<lambda>m. taskId_Map m = k) (taskTagMap_tbl (db_of w))))"
      unfolding taskTags_consistent_iff by blast
    show "\<exists>xs. taskTagsMap (state (fst (removeTaskTag w tid tagId))) k = Some xs \<and>
            mset xs = mset (map tagId_Map (filter (\<lambda>m. taskId_Map m = k)
                        (taskTagMap_tbl (db_of (fst (removeTaskTag w tid tagId))))))"
    proof (cases "k = tid")
      case True
      then show ?thesis by (simp add: e db_of_def)
    next
      case False
      have r: "taskTagMap_tbl (db_of (fst (removeTaskTag w tid tagId))) = ?R"
        by (simp add: e db_of_def)
      have m: "taskTagsMap (state (fst (removeTaskTag w tid tagId))) k = Some ys"
        using False ys(1) by (simp add: e)
      have "mset ys = mset (map tagId_Map (filter (\<lambda>m. taskId_Map m = k) ?R))"
        using ys(2) by (simp only: other [OF False] dbw)
      with m show ?thesis by (simp only: r) blast
    qed
  qed
qed

lemma filter_taskTags_total:
  "\<forall>k\<in>set ks. m k \<noteq> None \<Longrightarrow>
   filter_taskTags tg ks m =
     (\<lambda>k. if k \<in> set ks then map_option (filter (\<lambda>tId. tId \<noteq> tg)) (m k) else m k, None)"
proof (induction ks arbitrary: m)
  case Nil
  show ?case by simp
next
  case (Cons a ks)
  from Cons.prems obtain xs where xs: "m a = Some xs" by auto
  let ?m1 = "m(a \<mapsto> filter (\<lambda>tId. tId \<noteq> tg) xs)"
  have p: "\<forall>k\<in>set ks. ?m1 k \<noteq> None" using Cons.prems by simp
  have "filter_taskTags tg (a # ks) m = filter_taskTags tg ks ?m1" using xs by simp
  also have "\<dots> = (\<lambda>k. if k \<in> set ks then map_option (filter (\<lambda>tId. tId \<noteq> tg)) (?m1 k)
                         else ?m1 k, None)"
    by (rule Cons.IH [OF p])
  also have "(\<lambda>k. if k \<in> set ks then map_option (filter (\<lambda>tId. tId \<noteq> tg)) (?m1 k) else ?m1 k) =
             (\<lambda>k. if k \<in> set (a # ks) then map_option (filter (\<lambda>tId. tId \<noteq> tg)) (m k) else m k)"
    using xs by (auto simp: fun_eq_iff)
  finally show ?case .
qed

lemma tagIds_filter_commute:
  "map tagId_Map (filter (\<lambda>m. taskId_Map m = k) (filter (\<lambda>m. tagId_Map m \<noteq> tg) rows)) =
   filter (\<lambda>tId. tId \<noteq> tg) (map tagId_Map (filter (\<lambda>m. taskId_Map m = k) rows))"
  by (induction rows) simp_all

lemma deleteTag_consistent:
  assumes c: "taskTags_consistent w" and en: "storageEnabled w"
  shows "taskTags_consistent (fst (deleteTag w tagId confirmed))"
proof (cases "dexieDb w")
  case None
  then show ?thesis using c by (simp add: deleteTag_def)
next
  case (Some db)
  show ?thesis
  proof (cases "tbl_get id_Tag (tags_tbl db) tagId = None \<or> \<not> confirmed")
    case True
    then have "fst (deleteTag w tagId confirmed) = w"
      using Some by (auto simp: deleteTag_def split: option.splits)
    then show ?thesis using c by simp
  next
    case False
    then obtain tag where tag: "tbl_get id_Tag (tags_tbl db) tagId = Some tag" and cf: confirmed
      by auto
    let ?ks = "map fst (tasks (state w))"
    have ent: "\<forall>k\<in>set ?ks. taskTagsMap (state w) k \<noteq> None"
      using c unfolding taskTags_consistent_iff by fastforce
    let ?m = "\<lambda>k. if k \<in> set ?ks
                   then map_option (filter (\<lambda>tId. tId \<noteq> tagId)) (taskTagsMap (state w) k)
                   else taskTagsMap (state w) k"
    have ft: "filter_taskTags tagId ?ks (taskTagsMap (state w)) = (?m, None)"
      using ent by (rule filter_taskTags_total)
    have cm: "tasks (fst (commit_deleteTag (state w) tagId)) = tasks (state w)"
         "taskTagsMap (fst (commit_deleteTag (state w) tagId)) = ?m"
      by (simp_all add: commit_deleteTag_def ft)
    let ?R = "filter (\<lambda>m. tagId_Map m \<noteq> tagId) (taskTagMap_tbl db)"
    have st: "state (fst (deleteTag w tagId confirmed)) = fst (commit_deleteTag (state w) tagId)"
      using Some tag cf en
      by (simp add: deleteTag_def handleDexieError_def Let_def split: prod.splits)
    have tb: "taskTagMap_tbl (db_of (fst (deleteTag w tagId confirmed))) = ?R"
      using Some tag cf en
      by (simp add: deleteTag_def handleDexieError_def Let_def tbl_delete_def db_of_def
          split: prod.splits)
    have dbw: "taskTagMap_tbl (db_of w) = taskTagMap_tbl db" using Some by (simp add: db_of_def)
    show ?thesis
      unfolding taskTags_consistent_iff
    proof
      fix k assume "k \<in> set (map fst (tasks (state (fst (deleteTag w tagId confirmed)))))"
      then have k: "k \<in> set ?ks" by (simp only: st cm)
      from c k obtain ys where ys: "taskTagsMap (state w) k = Some ys"
        "mset ys = mset (map tagId_Map (filter (\<lambda>m. taskId_Map m = k) (taskTagMap_tbl (db_of w))))"
        unfolding taskTags_consistent_iff by blast
      have m: "taskTagsMap (state (fst (deleteTag w tagId confirmed))) k =
                 Some (filter (\<lambda>tId. tId \<noteq> tagId) ys)"
        using k ys(1) by (simp only: st cm) simp
      have "mset (filter (\<lambda>tId. tId \<noteq> tagId) ys) =
              mset (filter (\<lambda>tId. tId \<noteq> tagId)
                      (map tagId_Map (filter (\<lambda>m. taskId_Map m = k) (taskTagMap_tbl db))))"
        using ys(2) by (simp only: mset_filter dbw)
      then have "mset (filter (\<lambda>tId. tId \<noteq> tagId) ys) =
              mset (map tagId_Map (filter (\<lambda>m. taskId_Map m = k) ?R))"
        by (simp only: tagIds_filter_commute)
      with m show "\<exists>xs. taskTagsMap (state (fst (deleteTag w tagId confirmed))) k = Some xs \<and>
            mset xs = mset (map tagId_Map (filter (\<lambda>m. taskId_Map m = k)
                        (taskTagMap_tbl (db_of (fst (deleteTag w tagId confirmed))))))"
        by (simp only: tb) blast
    qed
  qed
qed

lemmas ex_tags_defs = ex_world_tags_def ex_db_def ex_state_def ex_tag_x_def ex_tag_y_def
  ex_row_x_def ex_task_a_def ex_task_b_def

lemma ex_world_tags_facts:
  "taskTags_consistent ex_world_tags"
  "storageEnabled ex_world_tags"
  "\<forall>(k, g)\<in>set (tags (state ex_world_tags)). id_Tag g = k"
  by (simp_all add: taskTags_consistent_def tag_ids_of_def db_of_def ex_tags_defs)

text \<open>
  C4 (as amended). In a world with storage enabled whose tag dictionary is keyed by the
  tag ids: if for every task of the state \<^verbatim>\<open>state.taskTagsMap\<close> holds the tag ids of the
  task's association rows with the same multiplicities, then the same is true after
  adding a tag to a task (\<^verbatim>\<open>addTaskTagById\<close>, \<^verbatim>\<open>addTaskTagByName\<close>), after removing a tag
  from a task (\<^verbatim>\<open>removeTaskTag\<close>) and after deleting a tag (\<^verbatim>\<open>deleteTag\<close>). The order of
  the entry need not be the order of the rows.
\<close>

theorem taskTagsMap_kept_consistent:
  assumes "taskTags_consistent w" and "storageEnabled w"
    and "\<forall>(k, g)\<in>set (tags (state w)). id_Tag g = k"
  shows "taskTags_consistent (fst (addTaskTagById w tid tagId nid))
       \<and> taskTags_consistent (fst (addTaskTagByName w tid nm nidTag nidMap randomColor))
       \<and> taskTags_consistent (fst (removeTaskTag w tid tagId))
       \<and> taskTags_consistent (fst (deleteTag w tagId confirmed))"
  using addTaskTagById_consistent [OF assms] addTaskTagByName_consistent [OF assms(1)]
    removeTaskTag_consistent [OF assms(1)] deleteTag_consistent [OF assms(1,2)]
  by blast

text \<open>The theorem at the world with two tags: attaching \<open>tag-y\<close> to \<open>task-b\<close>, detaching
  \<open>tag-x\<close> from it, and deleting \<open>tag-x\<close>.\<close>

theorem taskTagsMap_kept_consistent_witness:
  "taskTags_consistent ex_world_tags \<and> storageEnabled ex_world_tags
   \<and> map id_Tag (map snd (tags (state ex_world_tags))) = map fst (tags (state ex_world_tags))
   \<and> taskTags_consistent (fst (addTaskTagById ex_world_tags ''task-b'' ''tag-y'' ''m1''))
   \<and> taskTags_consistent (fst (removeTaskTag ex_world_tags ''task-b'' ''tag-x''))
   \<and> taskTags_consistent (fst (deleteTag ex_world_tags ''tag-x'' True))"
proof -
  have k: "map id_Tag (map snd (tags (state ex_world_tags))) = map fst (tags (state ex_world_tags))"
    by (simp add: ex_tags_defs)
  show ?thesis
    using taskTagsMap_kept_consistent [OF ex_world_tags_facts,
        where tid = "''task-b''" and tagId = "''tag-y''" and nid = "''m1''"]
      taskTagsMap_kept_consistent [OF ex_world_tags_facts,
        where tid = "''task-b''" and tagId = "''tag-x''" and confirmed = True]
      ex_world_tags_facts(1,2) k
    by blast
qed

text \<open>
  C4 as stated fails: in the world with two tags the entry of every task is the list of
  the tag ids of its rows. \<^verbatim>\<open>addTaskTagById\<close> pushes \<open>tag-y\<close> at the end of the entry of
  \<open>task-b\<close>, while the new row, whose generated key \<open>taskTag-m1\<close> sorts before
  \<open>taskTag-m2\<close>, comes first in the table: the entry is \<open>[tag-x, tag-y]\<close> and the rows
  give \<open>[tag-y, tag-x]\<close>.
\<close>

theorem taskTagsMap_order_counterexample:
  "taskTags_equal ex_world_tags
   \<and> \<not> taskTags_equal (fst (addTaskTagById ex_world_tags ''task-b'' ''tag-y'' ''m1''))
   \<and> taskTagsMap (state (fst (addTaskTagById ex_world_tags ''task-b'' ''tag-y'' ''m1''))) ''task-b''
       = Some [''tag-x'', ''tag-y'']
   \<and> tag_ids_of (db_of (fst (addTaskTagById ex_world_tags ''task-b'' ''tag-y'' ''m1''))) ''task-b''
       = [''tag-y'', ''tag-x'']"
  by (simp add: taskTags_equal_def tag_ids_of_def db_of_def addTaskTagById_def tbl_add_def
      handleDexieError_def commit_addTaskTag_def set_taskTagMap_def ex_tags_defs)

section \<open>At most one running log\<close>














lemma logs_wellformed_iff:
  "logs_wellformed w \<longleftrightarrow>
     distinct (map id_Log (logs_tbl (db_of w))) \<and>
     length (filter (\<lambda>l. stopped l = None) (logs_tbl (db_of w))) \<le> 1"
  by (simp add: logs_wellformed_def at_most_one_running_def running_logs_def)


lemma logs_wellformed_smaller:
  "logs_wellformed w \<Longrightarrow> distinct (map id_Log (logs_tbl (db_of w'))) \<Longrightarrow>
   length (filter (\<lambda>l. stopped l = None) (logs_tbl (db_of w')))
     \<le> length (filter (\<lambda>l. stopped l = None) (logs_tbl (db_of w))) \<Longrightarrow>
   logs_wellformed w'"
  by (simp add: logs_wellformed_iff)

lemma db_of_None [simp]: "dexieDb w = None \<Longrightarrow> logs_tbl (db_of w) = []"
  by (simp add: db_of_def empty_db_def)



















lemma logs_tbl_db_of_simps [simp]:
  "logs_tbl (db_of (w\<lparr>state := st\<rparr>)) = logs_tbl (db_of w)"
  "logs_tbl (db_of (w\<lparr>storageEnabled := b\<rparr>)) = logs_tbl (db_of w)"
  "logs_tbl (db_of (w\<lparr>dexieDb := Some d\<rparr>)) = logs_tbl d"
  by (simp_all add: db_of_def)


lemma updateSetting_db: "(dexieDb (fst (updateSetting w kv)) = None) = (dexieDb w = None)"
  by (cases "dexieDb w") (simp_all add: updateSetting_def Let_def handleDexieError_def)
























end
